theory Spec2Isabelle
  imports Main
begin

section \<open>Persistent store (database.ts)\<close>

text \<open>
  The SQLite tables of \<^verbatim>\<open>database.ts\<close> and the statements that read and write them.
  A nullable column is an \<open>option\<close>; JavaScript strings are modelled as \<open>string\<close>.
\<close>

subsection \<open>thread_worktrees\<close>

text \<open>
  \<^verbatim>\<open>thread_id TEXT PRIMARY KEY\<close>: the table is a map from the thread to its row.
  \<^verbatim>\<open>export type WorktreeStatus = 'pending' | 'ready' | 'error'\<close>
\<close>

datatype WorktreeStatus = WPending | WReady | WError

text \<open>
  \<^verbatim>\<open>type ThreadWorktree\<close>; the field \<^verbatim>\<open>status\<close> is called \<open>wt_status\<close> here, and
  the other columns carry the same prefix.
\<close>

record ThreadWorktree =
  wt_thread_id :: string
  worktree_name :: string
  worktree_directory :: "string option"
  project_directory :: string
  wt_status :: WorktreeStatus
  wt_error_message :: "string option"

type_synonym worktree_table = "string \<rightharpoonup> ThreadWorktree"

text \<open>\<^verbatim>\<open>SELECT * FROM thread_worktrees WHERE thread_id = ?\<close>\<close>

definition getThreadWorktree :: "worktree_table \<Rightarrow> string \<Rightarrow> ThreadWorktree option" where
  "getThreadWorktree db threadId = db threadId"

text \<open>
  \<^verbatim>\<open>INSERT OR REPLACE INTO thread_worktrees (thread_id, worktree_name, project_directory,
  status) VALUES (?, ?, ?, 'pending')\<close>: a row with the same primary key is replaced as a
  whole, so the columns that are not listed become \<^verbatim>\<open>NULL\<close>.
\<close>

definition createPendingWorktree :: "string \<Rightarrow> string \<Rightarrow> string \<Rightarrow> worktree_table \<Rightarrow> worktree_table" where
  "createPendingWorktree threadId worktreeName projectDirectory db =
     db(threadId \<mapsto> \<lparr>wt_thread_id = threadId, worktree_name = worktreeName,
                      worktree_directory = None, project_directory = projectDirectory,
                      wt_status = WPending, wt_error_message = None\<rparr>)"

text \<open>
  \<^verbatim>\<open>UPDATE thread_worktrees SET worktree_directory = ?, status = 'ready' WHERE thread_id = ?\<close>:
  no row, no change; the \<^verbatim>\<open>WHERE\<close> clause does not look at the status.
\<close>

definition setWorktreeReady :: "string \<Rightarrow> string \<Rightarrow> worktree_table \<Rightarrow> worktree_table" where
  "setWorktreeReady threadId worktreeDirectory db =
     (case db threadId of
        None \<Rightarrow> db
      | Some row \<Rightarrow> db(threadId \<mapsto> row\<lparr>worktree_directory := Some worktreeDirectory,
                                         wt_status := WReady\<rparr>))"

text \<open>\<^verbatim>\<open>UPDATE thread_worktrees SET status = 'error', error_message = ? WHERE thread_id = ?\<close>\<close>

definition setWorktreeError :: "string \<Rightarrow> string \<Rightarrow> worktree_table \<Rightarrow> worktree_table" where
  "setWorktreeError threadId errorMessage db =
     (case db threadId of
        None \<Rightarrow> db
      | Some row \<Rightarrow> db(threadId \<mapsto> row\<lparr>wt_status := WError,
                                         wt_error_message := Some errorMessage\<rparr>))"

text \<open>\<^verbatim>\<open>DELETE FROM thread_worktrees WHERE thread_id = ?\<close>\<close>

definition deleteThreadWorktree :: "string \<Rightarrow> worktree_table \<Rightarrow> worktree_table" where
  "deleteThreadWorktree threadId db = db(threadId := None)"

text \<open>One call of a worktree operation of the store, and a sequence of them.\<close>

datatype worktree_op =
    CreatePendingWorktree string string string
  | SetWorktreeReady string string
  | SetWorktreeError string string
  | DeleteThreadWorktree string

fun worktree_op_thread :: "worktree_op \<Rightarrow> string" where
  "worktree_op_thread (CreatePendingWorktree t n p) = t"
| "worktree_op_thread (SetWorktreeReady t d) = t"
| "worktree_op_thread (SetWorktreeError t m) = t"
| "worktree_op_thread (DeleteThreadWorktree t) = t"

fun run_worktree_op :: "worktree_op \<Rightarrow> worktree_table \<Rightarrow> worktree_table" where
  "run_worktree_op (CreatePendingWorktree t n p) db = createPendingWorktree t n p db"
| "run_worktree_op (SetWorktreeReady t d) db = setWorktreeReady t d db"
| "run_worktree_op (SetWorktreeError t m) db = setWorktreeError t m db"
| "run_worktree_op (DeleteThreadWorktree t) db = deleteThreadWorktree t db"

fun run_worktree_ops :: "worktree_op list \<Rightarrow> worktree_table \<Rightarrow> worktree_table" where
  "run_worktree_ops [] db = db"
| "run_worktree_ops (op # ops) db = run_worktree_ops ops (run_worktree_op op db)"

definition worktree_status_of :: "worktree_table \<Rightarrow> string \<Rightarrow> WorktreeStatus option" where
  "worktree_status_of db threadId = map_option wt_status (getThreadWorktree db threadId)"

text \<open>The status that one operation on the thread's own row leaves, from the status before.\<close>

fun worktree_next_status :: "worktree_op \<Rightarrow> WorktreeStatus option \<Rightarrow> WorktreeStatus option" where
  "worktree_next_status (CreatePendingWorktree t n p) old = Some WPending"
| "worktree_next_status (SetWorktreeReady t d) old = map_option (\<lambda>s. WReady) old"
| "worktree_next_status (SetWorktreeError t m) old = map_option (\<lambda>s. WError) old"
| "worktree_next_status (DeleteThreadWorktree t) old = None"


subsection \<open>thread_sessions and part_messages\<close>

text \<open>
  Both tables have a \<^verbatim>\<open>TEXT PRIMARY KEY\<close> and are written by
  \<^verbatim>\<open>INSERT OR REPLACE\<close> only. A table is the list of its rows in rowid order;
  \<^verbatim>\<open>INSERT OR REPLACE\<close> deletes every row with the new row's key and appends the new
  row, and \<^verbatim>\<open>.get()\<close> returns the first row that matches. The column
  \<^verbatim>\<open>created_at\<close> (\<^verbatim>\<open>DEFAULT CURRENT_TIMESTAMP\<close>) is read nowhere and is left out.
\<close>

definition insert_or_replace :: "('r \<Rightarrow> 'k) \<Rightarrow> 'r \<Rightarrow> 'r list \<Rightarrow> 'r list" where
  "insert_or_replace key row tbl = filter (\<lambda>r. key r \<noteq> key row) tbl @ [row]"

record ThreadSession =
  ts_thread_id :: string
  session_id :: string

record PartMessage =
  part_id :: string
  message_id :: string
  pm_thread_id :: string

text \<open>\<^verbatim>\<open>INSERT OR REPLACE INTO thread_sessions (thread_id, session_id) VALUES (?, ?)\<close>\<close>

definition insert_thread_session :: "string \<Rightarrow> string \<Rightarrow> ThreadSession list \<Rightarrow> ThreadSession list" where
  "insert_thread_session threadId sessionId tbl =
     insert_or_replace ts_thread_id \<lparr>ts_thread_id = threadId, session_id = sessionId\<rparr> tbl"

text \<open>\<^verbatim>\<open>SELECT session_id FROM thread_sessions WHERE thread_id = ?\<close>\<close>

definition select_session_id :: "ThreadSession list \<Rightarrow> string \<Rightarrow> string option" where
  "select_session_id tbl threadId =
     map_option session_id (find (\<lambda>r. ts_thread_id r = threadId) tbl)"

text \<open>
  \<^verbatim>\<open>INSERT OR REPLACE INTO part_messages (part_id, message_id, thread_id) VALUES (?, ?, ?)\<close>
\<close>

definition insert_part_message :: "string \<Rightarrow> string \<Rightarrow> string \<Rightarrow> PartMessage list \<Rightarrow> PartMessage list" where
  "insert_part_message partId messageId threadId tbl =
     insert_or_replace part_id \<lparr>part_id = partId, message_id = messageId, pm_thread_id = threadId\<rparr> tbl"

text \<open>
  The transaction of \<^verbatim>\<open>handleResumeCommand\<close>:
  \<^verbatim>\<open>for (const partId of ids) { stmt.run(partId, discordMessage.id, thread.id) }\<close>
\<close>

fun insert_part_messages :: "string list \<Rightarrow> string \<Rightarrow> string \<Rightarrow> PartMessage list \<Rightarrow> PartMessage list" where
  "insert_part_messages [] messageId threadId tbl = tbl"
| "insert_part_messages (partId # ids) messageId threadId tbl =
     insert_part_messages ids messageId threadId (insert_part_message partId messageId threadId tbl)"

text \<open>\<^verbatim>\<open>SELECT part_id FROM part_messages WHERE message_id = ?\<close>\<close>

definition select_part_id :: "PartMessage list \<Rightarrow> string \<Rightarrow> string option" where
  "select_part_id tbl messageId =
     map_option part_id (find (\<lambda>r. message_id r = messageId) tbl)"


section \<open>Chat platform and agent server\<close>

text \<open>
  The chat platform (\<^verbatim>\<open>discord.js\<close>) and the agent server are outside the repository.
  Each call into them is a field of an environment record: a function from the call's
  arguments to its result, where \<open>Inl msg\<close> is a rejected promise (a thrown \<^verbatim>\<open>Error\<close>
  with message \<open>msg\<close>). What the program sends out is recorded as a list of events, in
  order.

  \<^verbatim>\<open>ChannelType\<close> is the numeric enum of the platform; the four members the code names:
\<close>

definition GuildText :: nat where "GuildText = 0"
definition AnnouncementThread :: nat where "AnnouncementThread = 10"
definition PublicThread :: nat where "PublicThread = 11"
definition PrivateThread :: nat where "PrivateThread = 12"

text \<open>
  A fetched channel: \<open>sendable\<close> stands for
  \<^verbatim>\<open>channel.isTextBased() && 'send' in channel\<close>.
\<close>

record channel =
  channel_id :: string
  channel_type :: nat
  parentId :: "string option"
  sendable :: bool

text \<open>
  \<^verbatim>\<open>[ChannelType.PublicThread, ChannelType.PrivateThread,
  ChannelType.AnnouncementThread].includes(channel.type)\<close>
\<close>

definition isThread :: "channel \<Rightarrow> bool" where
  "isThread ch = (channel_type ch \<in> set [PublicThread, PrivateThread, AnnouncementThread])"

text \<open>
  A string that may be absent, under JavaScript's truthiness (\<^verbatim>\<open>!x\<close>,
  \<^verbatim>\<open>!row?.col\<close>, \<^verbatim>\<open>a || b\<close>): \<^verbatim>\<open>undefined\<close>, \<^verbatim>\<open>null\<close> and \<^verbatim>\<open>''\<close> are falsy.
\<close>

fun truthy :: "string option \<Rightarrow> string option" where
  "truthy None = None"
| "truthy (Some s) = (if s = [] then None else Some s)"

text \<open>
  The pictographs of the replies of the command handlers, as their UTF-8 bytes: cross
  mark and check mark.
\<close>

definition cross_mark :: string where "cross_mark = [CHR 0xE2, CHR 0x9D, CHR 0x8C]"
definition check_mark :: string where "check_mark = [CHR 0xE2, CHR 0x9C, CHR 0x85]"

text \<open>
  The scheduler cuts a prompt with \<^verbatim>\<open>slice\<close> and measures it with \<^verbatim>\<open>length\<close>, which
  count UTF-16 code units. A text of the scheduler (a prompt, the message of an error,
  the content of a message, the name of a thread) is therefore the list of its code
  units. \<open>units\<close> gives the code units of a string of ASCII characters, one for each
  character: a literal of the source, the digits of a number, an id that the platform
  hands out.
\<close>

type_synonym utf16 = "nat list"

definition units :: "string \<Rightarrow> utf16" where
  "units s = map of_char s"

text \<open>
  The pictographs of the scheduler's templates, as code units: alarm clock (U+23F0),
  check mark (U+2705), cross mark (U+274C), pushpin (U+1F4CD, a surrogate pair), speech
  balloon (U+1F4AC, a surrogate pair), warning sign (U+26A0 followed by U+FE0F).
\<close>

definition alarm_clock :: utf16 where "alarm_clock = [0x23F0]"
definition check_mark_units :: utf16 where "check_mark_units = [0x2705]"
definition cross_mark_units :: utf16 where "cross_mark_units = [0x274C]"
definition round_pushpin :: utf16 where "round_pushpin = [0xD83D, 0xDCCD]"
definition speech_balloon :: utf16 where "speech_balloon = [0xD83D, 0xDCAC]"
definition warning_sign :: utf16 where "warning_sign = [0x26A0, 0xFE0F]"

text \<open>
  \<^verbatim>\<open>errore.tryAsync\<close> (a library, not part of the sources) awaits the function it is
  given and returns, for an exception thrown inside, an \<^verbatim>\<open>Error\<close> whose \<^verbatim>\<open>message\<close> is
  the text below followed by the message of the exception.
\<close>

definition unhandled_exception :: string where
  "unhandled_exception = ''Unhandled exception: ''"


section \<open>Forking a session (handleForkContextMenu)\<close>

text \<open>The data of a successful \<^verbatim>\<open>session.fork\<close> response that the handler reads.\<close>

record forked_session =
  forked_id :: string
  forked_title :: "string option"

text \<open>
  The interaction: its channel and the id of the message the user picked; and the calls
  the handler makes. \<open>getKimakiMetadata\<close> gives the \<^verbatim>\<open>projectDirectory\<close> of the
  metadata; \<open>session_fork\<close> takes the session id, the \<^verbatim>\<open>messageID\<close> and the
  directory, and gives \<^verbatim>\<open>forkResult.data\<close>; \<open>threads_create\<close> takes the parent channel
  and the thread name and gives the id of the new thread.
\<close>

record interaction =
  interaction_channel :: "channel option"
  targetMessage_id :: string

record fork_env =
  resolveTextChannel :: "channel \<Rightarrow> channel option"
  getKimakiMetadata :: "channel option \<Rightarrow> string option"
  initializeOpencodeForDirectory :: "string \<Rightarrow> string + unit"
  session_fork :: "string \<Rightarrow> string \<Rightarrow> string \<Rightarrow> string + forked_session option"
  threads_create :: "channel \<Rightarrow> string \<Rightarrow> string + string"

text \<open>
  What the handler does to the outside, in order: \<open>Reply\<close> is
  \<^verbatim>\<open>interaction.reply({content, ephemeral: true})\<close>, \<open>SessionFork\<close> the call of
  \<^verbatim>\<open>session.fork\<close> with its result, \<open>ThreadsCreate\<close> a thread that
  \<^verbatim>\<open>threads.create\<close> returned (parent channel, name, id of the new thread).
\<close>

datatype fork_event =
    Reply string
  | DeferReply
  | EditReply string
  | SessionFork string string string "string + forked_session option"
  | ThreadsCreate string string string

text \<open>
  The result: the \<^verbatim>\<open>thread_sessions\<close> table afterwards, the events, and the message of
  an exception that left the handler, if any.
\<close>

type_synonym fork_outcome = "ThreadSession list \<times> fork_event list \<times> string option"

definition fork_not_linked_message :: string where
  "fork_not_linked_message =
     cross_mark @ '' This message is not linked to a session part. Select a message from the AI response.''"

definition handleForkContextMenu ::
  "fork_env \<Rightarrow> interaction \<Rightarrow> ThreadSession list \<Rightarrow> PartMessage list \<Rightarrow> fork_outcome" where
  "handleForkContextMenu env i thread_sessions part_messages =
    (case interaction_channel i of
       None \<Rightarrow> (thread_sessions, [Reply (cross_mark @ '' Could not access channel'')], None)
     | Some thread \<Rightarrow>
       if \<not> isThread thread then
         (thread_sessions, [Reply (cross_mark @ '' This command only works in session threads'')], None)
       else
        (case truthy (getKimakiMetadata env (resolveTextChannel env thread)) of
           None \<Rightarrow>
             (thread_sessions,
              [Reply (cross_mark @ '' Could not find project directory for this channel'')], None)
         | Some projectDirectory \<Rightarrow>
          (case truthy (select_session_id thread_sessions (channel_id thread)) of
             None \<Rightarrow>
               (thread_sessions, [Reply (cross_mark @ '' No session found for this thread'')], None)
           | Some row_session_id \<Rightarrow>
            (case truthy (select_part_id part_messages (targetMessage_id i)) of
               None \<Rightarrow> (thread_sessions, [Reply fork_not_linked_message], None)
             | Some partRow_part_id \<Rightarrow>
              (case initializeOpencodeForDirectory env projectDirectory of
                 Inl message \<Rightarrow>
                   (thread_sessions, [DeferReply, EditReply (cross_mark @ '' '' @ message)], None)
               | Inr getClient \<Rightarrow>
                (let forkResult = session_fork env row_session_id partRow_part_id projectDirectory;
                     called = SessionFork row_session_id partRow_part_id projectDirectory forkResult
                 in case forkResult of
                   Inl message \<Rightarrow>
                     (thread_sessions,
                      [DeferReply, called, EditReply (cross_mark @ '' Fork failed: '' @ unhandled_exception @ message)], None)
                 | Inr None \<Rightarrow>
                     (thread_sessions,
                      [DeferReply, called, EditReply (cross_mark @ '' Fork returned no session data'')],
                      None)
                 | Inr (Some forkedSession) \<Rightarrow>
                  (case resolveTextChannel env thread of
                     None \<Rightarrow>
                       (thread_sessions,
                        [DeferReply, called, EditReply (cross_mark @ '' Could not find parent channel'')],
                        None)
                   | Some parentTextChannel \<Rightarrow>
                    (let name = take 100 (''Fork: '' @
                           (case truthy (forked_title forkedSession) of
                              None \<Rightarrow> ''Untitled'' | Some title \<Rightarrow> title))
                     in case threads_create env parentTextChannel name of
                       Inl message \<Rightarrow> (thread_sessions, [DeferReply, called], Some message)
                     | Inr newThread_id \<Rightarrow>
                         (insert_thread_session newThread_id (forked_id forkedSession) thread_sessions,
                          [DeferReply, called,
                           ThreadsCreate (channel_id parentTextChannel) name newThread_id,
                           EditReply (check_mark @ '' Forked session to <#'' @ newThread_id @ ''>'')],
                          None)))))))))"

fun is_ThreadsCreate :: "fork_event \<Rightarrow> bool" where
  "is_ThreadsCreate (ThreadsCreate c n t) = True"
| "is_ThreadsCreate e = False"

fun is_SessionFork_ok :: "fork_event \<Rightarrow> bool" where
  "is_SessionFork_ok (SessionFork s p d (Inr (Some f))) = True"
| "is_SessionFork_ok e = False"

fun is_SessionFork :: "fork_event \<Rightarrow> bool" where
  "is_SessionFork (SessionFork s p d r) = True"
| "is_SessionFork e = False"


text \<open>
  Reading a trace from the left: a thread is created only when a fork call that returned
  session data has been seen before it.
\<close>

fun thread_only_after_fork :: "bool \<Rightarrow> fork_event list \<Rightarrow> bool" where
  "thread_only_after_fork forked [] = True"
| "thread_only_after_fork forked (e # es) =
     ((is_ThreadsCreate e \<longrightarrow> forked) \<and> thread_only_after_fork (forked \<or> is_SessionFork_ok e) es)"

text \<open>Sample surroundings for concrete runs: a public thread of a text channel.\<close>

definition demo_thread :: channel where
  "demo_thread = \<lparr>channel_id = ''t1'', channel_type = PublicThread, parentId = Some ''c1'', sendable = True\<rparr>"

definition demo_text_channel :: channel where
  "demo_text_channel = \<lparr>channel_id = ''c1'', channel_type = GuildText, parentId = None, sendable = True\<rparr>"

definition demo_fork_env :: fork_env where
  "demo_fork_env =
     \<lparr>resolveTextChannel = (\<lambda>ch. Some demo_text_channel),
      getKimakiMetadata = (\<lambda>ch. Some ''/proj''),
      initializeOpencodeForDirectory = (\<lambda>d. Inr ()),
      session_fork = (\<lambda>s p d. Inr (Some \<lparr>forked_id = ''s2'', forked_title = Some ''Refactor''\<rparr>)),
      threads_create = (\<lambda>c n. Inr ''t2'')\<rparr>"

definition demo_interaction :: interaction where
  "demo_interaction = \<lparr>interaction_channel = Some demo_thread, targetMessage_id = ''m1''\<rparr>"

definition demo_thread_sessions :: "ThreadSession list" where
  "demo_thread_sessions = insert_thread_session ''t1'' ''s1'' []"



section \<open>Scheduled messages\<close>

subsection \<open>The table and its accessors\<close>

text \<open>
  \<^verbatim>\<open>scheduler.ts\<close> and \<^verbatim>\<open>commands/schedule.ts\<close> import the accessors of the
  \<^verbatim>\<open>scheduled_messages\<close> table and of the bot settings from \<^verbatim>\<open>database.js\<close>; the part of
  \<^verbatim>\<open>database.ts\<close> that declares them is not among the sources. The row type has the
  columns the two callers read (\<^verbatim>\<open>id\<close>, \<^verbatim>\<open>channel_id\<close>, \<^verbatim>\<open>thread_id\<close>, \<^verbatim>\<open>prompt\<close>,
  \<^verbatim>\<open>scheduled_at\<close>, \<^verbatim>\<open>status\<close>, \<^verbatim>\<open>created_by\<close>) and the error message that
  \<^verbatim>\<open>updateScheduleStatus\<close> is given. Times are milliseconds (\<^verbatim>\<open>Date.now()\<close>).
\<close>

datatype ScheduleStatus = SPending | SCompleted | SFailed | SCancelled

record ScheduledMessage =
  sm_id :: int
  sm_channel_id :: string
  sm_thread_id :: "string option"
  prompt :: utf16
  scheduled_at :: int
  sm_status :: ScheduleStatus
  created_by :: string
  sm_error_message :: "utf16 option"

text \<open>
  Modelled from the spec: \<^verbatim>\<open>getPendingSchedules\<close> is not among the sources. The spec: the
  tick "queries the Store for rows with \<^verbatim>\<open>status = pending AND scheduledAt <= now\<close>".
\<close>

definition getPendingSchedules :: "int \<Rightarrow> ScheduledMessage list \<Rightarrow> ScheduledMessage list" where
  "getPendingSchedules now tbl = filter (\<lambda>r. sm_status r = SPending \<and> scheduled_at r \<le> now) tbl"

text \<open>
  Modelled from the spec: \<^verbatim>\<open>updateScheduleStatus\<close> is not among the sources. The spec:
  "on success, transition \<^verbatim>\<open>status=completed\<close>; on any exception, transition
  \<^verbatim>\<open>status=failed\<close> with the captured message", the failure being "persisted into the
  row's \<^verbatim>\<open>errorMessage\<close>". The row is the one with the given id; a call without a
  message leaves the stored message as it is.
\<close>

definition updateScheduleStatus ::
  "int \<Rightarrow> ScheduleStatus \<Rightarrow> utf16 option \<Rightarrow> ScheduledMessage list \<Rightarrow> ScheduledMessage list" where
  "updateScheduleStatus scheduleId status errorMessage tbl =
     map (\<lambda>r. if sm_id r = scheduleId
              then r\<lparr>sm_status := status,
                     sm_error_message := (case errorMessage of None \<Rightarrow> sm_error_message r
                                          | Some m \<Rightarrow> Some m)\<rparr>
              else r) tbl"

text \<open>
  Modelled from the spec: \<^verbatim>\<open>getScheduleById\<close> is not among the sources. The spec gives a
  \<^verbatim>\<open>ScheduledMessage\<close> the key \<^verbatim>\<open>id\<close>; the accessor returns the row with that id, if any.
\<close>

definition getScheduleById :: "ScheduledMessage list \<Rightarrow> int \<Rightarrow> ScheduledMessage option" where
  "getScheduleById tbl scheduleId = find (\<lambda>r. sm_id r = scheduleId) tbl"

text \<open>
  Modelled from the spec: \<^verbatim>\<open>cancelSchedule\<close> is not among the sources. The spec:
  "\<^verbatim>\<open>cancelSchedule(id, requestingUser)\<close> is accepted only while \<^verbatim>\<open>status=pending\<close>; it is
  a synchronous state transition with no side effects beyond marking the row". The
  result tells whether a row was marked.
\<close>

definition cancelSchedule :: "int \<Rightarrow> string \<Rightarrow> ScheduledMessage list \<Rightarrow> ScheduledMessage list \<times> bool" where
  "cancelSchedule scheduleId requestingUser tbl =
     (map (\<lambda>r. if sm_id r = scheduleId \<and> sm_status r = SPending then r\<lparr>sm_status := SCancelled\<rparr> else r) tbl,
      list_ex (\<lambda>r. sm_id r = scheduleId \<and> sm_status r = SPending) tbl)"

text \<open>
  Modelled from the spec: \<^verbatim>\<open>getBotSettings\<close> is not among the sources. The spec: the hub
  is "one configured channel reference per application identity"; the callers read
  \<^verbatim>\<open>settings.hub_channel_id\<close>, which may be \<^verbatim>\<open>null\<close>. The settings table maps an
  application id to its hub channel id.
\<close>

definition getBotSettings_hub_channel_id :: "(string \<rightharpoonup> string) \<Rightarrow> string \<Rightarrow> string option" where
  "getBotSettings_hub_channel_id bot_settings appId = bot_settings appId"

text \<open>
  \<^verbatim>\<open>getChannelDirectory\<close> of \<^verbatim>\<open>database.ts\<close>:
  \<^verbatim>\<open>SELECT directory, app_id FROM channel_directories WHERE channel_id = ?\<close>
  (\<^verbatim>\<open>channel_id TEXT PRIMARY KEY\<close>).
\<close>

record ChannelDirectory =
  directory :: string
  appId :: "string option"

definition getChannelDirectory :: "(string \<rightharpoonup> ChannelDirectory) \<Rightarrow> string \<Rightarrow> ChannelDirectory option" where
  "getChannelDirectory channel_directories channelId = channel_directories channelId"

text \<open>The tables the scheduler reads and writes.\<close>

record database =
  scheduled_messages :: "ScheduledMessage list"
  channel_directories :: "string \<rightharpoonup> ChannelDirectory"
  bot_settings :: "string \<rightharpoonup> string"

subsection \<open>Template strings\<close>

text \<open>A number inside a template string: its decimal digits.\<close>

fun decimal_nat :: "nat \<Rightarrow> string" where
  "decimal_nat n =
     (if n < 10 then [''0123456789'' ! n]
      else decimal_nat (n div 10) @ [''0123456789'' ! (n mod 10)])"

declare decimal_nat.simps [simp del]

definition decimal :: "int \<Rightarrow> string" where
  "decimal i = (if i < 0 then ''-'' @ decimal_nat (nat (- i)) else decimal_nat (nat i))"

text \<open>\<^verbatim>\<open>s.slice(0, n) + (s.length > n ? '...' : '')\<close>, on code units.\<close>

definition preview :: "nat \<Rightarrow> utf16 \<Rightarrow> utf16" where
  "preview n s = take n s @ (if length s > n then units ''...'' else [])"

definition newline :: utf16 where "newline = [0x0A]"

subsection \<open>processSchedules (scheduler.ts)\<close>

text \<open>The argument of \<^verbatim>\<open>handleOpencodeSession\<close>.\<close>

record session_request =
  request_prompt :: utf16
  request_thread :: channel
  request_projectDirectory :: string
  request_channelId :: string

text \<open>
  The calls of the scheduler into the chat platform and the session handler; \<open>Inl\<close>
  carries the message of the exception a call ends with. \<open>channels_fetch\<close> is
  \<^verbatim>\<open>client.channels.fetch\<close> (\<open>Inr None\<close>: it resolved to \<^verbatim>\<open>null\<close>), \<open>textChannel_send\<close>
  returns the id of the message sent, \<open>startThread\<close> takes that id and the thread name.
  The session handler is taken not to write the \<^verbatim>\<open>scheduled_messages\<close> table. The
  result of \<^verbatim>\<open>hubChannel.send\<close> is not part of the record: the call sits in a \<^verbatim>\<open>try\<close>
  with an empty \<^verbatim>\<open>catch\<close>.
\<close>

record scheduler_env =
  application_id :: "string option"
  channels_fetch :: "string \<Rightarrow> utf16 + channel option"
  sendThreadMessage :: "channel \<Rightarrow> utf16 \<Rightarrow> utf16 + unit"
  textChannel_send :: "channel \<Rightarrow> utf16 \<Rightarrow> utf16 + string"
  startThread :: "string \<Rightarrow> utf16 \<Rightarrow> utf16 + channel"
  handleOpencodeSession :: "session_request \<Rightarrow> utf16 + unit"

text \<open>
  The calls made, in order: the two log lines of a row (its start and its outcome), the
  messages the scheduler asks the platform to send, the thread it asks to start, the
  session request, and the message it asks the hub channel to send.
\<close>

datatype scheduler_event =
    LogProcessing int
  | LogFailed int utf16
  | LogCompleted int
  | SendThreadMessage string utf16
  | TextChannelSend string utf16
  | StartThread string utf16
  | HandleOpencodeSession session_request
  | HubChannelSend string utf16

text \<open>
  The function passed to \<^verbatim>\<open>errore.tryAsync\<close>: \<open>Inl thrown\<close> is an exception thrown
  inside, with its message.
\<close>

definition executeSchedule ::
  "scheduler_env \<Rightarrow> database \<Rightarrow> ScheduledMessage \<Rightarrow> (utf16 + unit) \<times> scheduler_event list" where
  "executeSchedule env db schedule =
    (let targetChannelId =
           (case truthy (sm_thread_id schedule) of Some t \<Rightarrow> t | None \<Rightarrow> sm_channel_id schedule)
     in case channels_fetch env targetChannelId of
       Inl thrown \<Rightarrow> (Inl thrown, [])
     | Inr None \<Rightarrow> (Inl (units ''Channel '' @ units targetChannelId @ units '' not found''), [])
     | Inr (Some channel) \<Rightarrow>
       if isThread channel then
        (case truthy (parentId channel) of
           None \<Rightarrow> (Inl (units ''Thread has no parent channel''), [])
         | Some parent \<Rightarrow>
          (case truthy (map_option directory (getChannelDirectory (channel_directories db) parent)) of
             None \<Rightarrow> (Inl (units ''No project directory configured for channel '' @ units parent), [])
           | Some dir \<Rightarrow>
            (let content = alarm_clock @ units '' **Scheduled message** (from <@''
                             @ units (created_by schedule) @ units ''>):'' @ newline @ prompt schedule;
                 sent = SendThreadMessage (channel_id channel) content
             in case sendThreadMessage env channel content of
               Inl thrown \<Rightarrow> (Inl thrown, [sent])
             | Inr u \<Rightarrow>
              (let request = \<lparr>request_prompt = prompt schedule, request_thread = channel,
                              request_projectDirectory = dir, request_channelId = parent\<rparr>
               in case handleOpencodeSession env request of
                 Inl thrown \<Rightarrow> (Inl thrown, [sent, HandleOpencodeSession request])
               | Inr u \<Rightarrow> (Inr (), [sent, HandleOpencodeSession request])))))
       else if channel_type channel = GuildText then
        (case truthy (map_option directory
                        (getChannelDirectory (channel_directories db) (channel_id channel))) of
           None \<Rightarrow>
             (Inl (units ''No project directory configured for channel '' @ units (channel_id channel)),
              [])
         | Some dir \<Rightarrow>
          (let content = alarm_clock @ units '' **Scheduled** (from <@'' @ units (created_by schedule)
                           @ units ''>): '' @ preview 100 (prompt schedule);
               sent = TextChannelSend (channel_id channel) content
           in case textChannel_send env channel content of
             Inl thrown \<Rightarrow> (Inl thrown, [sent])
           | Inr starterMessage \<Rightarrow>
            (let name = units ''Scheduled: '' @ preview 50 (prompt schedule);
                 started = StartThread starterMessage name
             in case startThread env starterMessage name of
               Inl thrown \<Rightarrow> (Inl thrown, [sent, started])
             | Inr thread \<Rightarrow>
              (let request = \<lparr>request_prompt = prompt schedule, request_thread = thread,
                              request_projectDirectory = dir,
                              request_channelId = channel_id channel\<rparr>
               in case handleOpencodeSession env request of
                 Inl thrown \<Rightarrow> (Inl thrown, [sent, started, HandleOpencodeSession request])
               | Inr u \<Rightarrow> (Inr (), [sent, started, HandleOpencodeSession request])))))
       else (Inl (units ''Unsupported channel type: '' @ units (decimal_nat (channel_type channel))), []))"

text \<open>
  \<^verbatim>\<open>sendScheduleNotification\<close>; \<open>status\<close> is \<^verbatim>\<open>'completed' | 'failed'\<close>. An error of the
  \<^verbatim>\<open>send\<close> is caught and dropped, so the function never throws.
\<close>

definition scheduleNotificationContent :: "ScheduledMessage \<Rightarrow> ScheduleStatus \<Rightarrow> utf16 option \<Rightarrow> utf16" where
  "scheduleNotificationContent schedule status errorMessage =
    (let promptPreview = preview 50 (prompt schedule);
         emoji = (if status = SCompleted then check_mark_units else cross_mark_units);
         statusText = (if status = SCompleted then units ''completed'' else units ''failed'');
         head = emoji @ units '' Schedule **#'' @ units (decimal (sm_id schedule)) @ units ''** ''
                @ statusText @ newline
                @ round_pushpin @ units '' <#'' @ units (sm_channel_id schedule) @ units ''>'' @ newline
                @ speech_balloon @ units '' '' @ promptPreview
     in if status = SFailed
        then head @ newline @ warning_sign @ units '' ''
               @ (case errorMessage of None \<Rightarrow> units ''undefined'' | Some m \<Rightarrow> m)
        else head)"

definition sendScheduleNotification ::
  "scheduler_env \<Rightarrow> database \<Rightarrow> ScheduledMessage \<Rightarrow> ScheduleStatus \<Rightarrow> utf16 option
   \<Rightarrow> scheduler_event list" where
  "sendScheduleNotification env db schedule status errorMessage =
    (case truthy (application_id env) of
       None \<Rightarrow> []
     | Some app \<Rightarrow>
      (case truthy (getBotSettings_hub_channel_id (bot_settings db) app) of
         None \<Rightarrow> []
       | Some hub_channel_id \<Rightarrow>
        (case channels_fetch env hub_channel_id of
           Inl thrown \<Rightarrow> []
         | Inr None \<Rightarrow> []
         | Inr (Some hubChannel) \<Rightarrow>
             if \<not> sendable hubChannel then []
             else [HubChannelSend (channel_id hubChannel)
                     (scheduleNotificationContent schedule status errorMessage)])))"

text \<open>
  The loop of \<^verbatim>\<open>processSchedules\<close> over rows that \<^verbatim>\<open>getPendingSchedules\<close> returned
  when the tick started; \<open>message\<close> is \<^verbatim>\<open>result.message\<close> of the \<^verbatim>\<open>Error\<close> that
  \<^verbatim>\<open>errore.tryAsync\<close> returned. Every iteration here starts on the table that the
  iteration before left: the function is the loop when nothing else writes the table
  while it runs. The iterations of ticks that run side by side are taken one by one
  below.
\<close>

fun processSchedules_loop ::
  "scheduler_env \<Rightarrow> ScheduledMessage list \<Rightarrow> database \<Rightarrow> database \<times> scheduler_event list" where
  "processSchedules_loop env [] db = (db, [])"
| "processSchedules_loop env (schedule # pendingSchedules) db =
    (case executeSchedule env db schedule of
       (Inl thrown, calls) \<Rightarrow>
        (let message = units unhandled_exception @ thrown;
             db1 = db\<lparr>scheduled_messages :=
                       updateScheduleStatus (sm_id schedule) SFailed (Some message)
                         (scheduled_messages db)\<rparr>;
             notes = sendScheduleNotification env db1 schedule SFailed (Some message);
             (db2, later) = processSchedules_loop env pendingSchedules db1
         in (db2, LogProcessing (sm_id schedule) # calls
                    @ LogFailed (sm_id schedule) message # notes @ later))
     | (Inr u, calls) \<Rightarrow>
        (let db1 = db\<lparr>scheduled_messages :=
                       updateScheduleStatus (sm_id schedule) SCompleted None
                         (scheduled_messages db)\<rparr>;
             notes = sendScheduleNotification env db1 schedule SCompleted None;
             (db2, later) = processSchedules_loop env pendingSchedules db1
         in (db2, LogProcessing (sm_id schedule) # calls
                    @ LogCompleted (sm_id schedule) # notes @ later)))"

subsection \<open>The timer (startScheduler)\<close>

text \<open>
  \<^verbatim>\<open>setInterval(() => { void processSchedules(client) }, 10_000)\<close>: every 10 seconds a
  tick starts, whether or not an earlier tick has finished. A tick reads
  \<^verbatim>\<open>getPendingSchedules()\<close> when it starts and then works through that list; every
  iteration awaits the platform and the session handler and writes the status of its
  row after them, so other ticks start, and iterations of other ticks end, while it
  waits.

  The state of the scheduler: the tables; for every tick started so far, in the order of
  their starts, the rows of its list that it has not finished (the first of them is the
  row it is working on; a tick that has finished has none); and the calls made, those of
  one iteration together and in their order, the iterations in the order in which they
  ended.
\<close>

record scheduler_state =
  store :: database
  in_flight :: "ScheduledMessage list list"
  trace :: "scheduler_event list"

text \<open>
  What happens, one at a time: the timer fires at a time \<open>now\<close> and a tick starts; or
  the tick that was the \<open>k\<close>-th to start (counting from 0) ends the iteration of the
  row it is working on, the platform and the session handler having answered as in
  \<open>env\<close>. The iteration is one iteration of the loop above, taken at its end, where it
  writes the table: whatever starts or ends while the iteration waits comes before it. A
  tick with no row left does nothing.
\<close>

datatype scheduler_action = TimerFires int | IterationEnds nat scheduler_env

fun scheduler_step :: "scheduler_action \<Rightarrow> scheduler_state \<Rightarrow> scheduler_state" where
  "scheduler_step (TimerFires now) st =
     st\<lparr>in_flight := in_flight st @ [getPendingSchedules now (scheduled_messages (store st))]\<rparr>"
| "scheduler_step (IterationEnds k env) st =
     (if k < length (in_flight st) then
        (case in_flight st ! k of
           [] \<Rightarrow> st
         | schedule # pendingSchedules \<Rightarrow>
            (case processSchedules_loop env [schedule] (store st) of
               (db1, calls) \<Rightarrow>
                 \<lparr>store = db1, in_flight = (in_flight st)[k := pendingSchedules],
                  trace = trace st @ calls\<rparr>))
      else st)"

fun scheduler_run :: "scheduler_action list \<Rightarrow> scheduler_state \<Rightarrow> scheduler_state" where
  "scheduler_run [] st = st"
| "scheduler_run (a # actions) st = scheduler_run actions (scheduler_step a st)"

text \<open>The scheduler before its first tick.\<close>

definition scheduler_start :: "database \<Rightarrow> scheduler_state" where
  "scheduler_start db = \<lparr>store = db, in_flight = [], trace = []\<rparr>"

subsection \<open>The cancel subcommand (commands/schedule.ts)\<close>

text \<open>
  A reply to the command: \<^verbatim>\<open>ephemeral: true\<close> or \<^verbatim>\<open>flags: SILENT_MESSAGE_FLAGS\<close>.
\<close>

record command_reply =
  reply_content :: string
  reply_ephemeral :: bool

text \<open>\<^verbatim>\<open>${schedule.status}\<close>\<close>

fun status_text :: "ScheduleStatus \<Rightarrow> string" where
  "status_text SPending = ''pending''"
| "status_text SCompleted = ''completed''"
| "status_text SFailed = ''failed''"
| "status_text SCancelled = ''cancelled''"

text \<open>
  \<^verbatim>\<open>case 'cancel'\<close> of \<^verbatim>\<open>handleScheduleCommand\<close>, with the store's \<^verbatim>\<open>cancelSchedule\<close> as
  the parameter \<open>cancel\<close>.
\<close>

definition handleScheduleCommand_cancel ::
  "(int \<Rightarrow> string \<Rightarrow> ScheduledMessage list \<Rightarrow> ScheduledMessage list \<times> bool)
   \<Rightarrow> int \<Rightarrow> string \<Rightarrow> ScheduledMessage list \<Rightarrow> ScheduledMessage list \<times> command_reply" where
  "handleScheduleCommand_cancel cancel scheduleId user tbl =
    (case getScheduleById tbl scheduleId of
       None \<Rightarrow>
         (tbl, \<lparr>reply_content = cross_mark @ '' Schedule #'' @ decimal scheduleId @ '' not found'',
                reply_ephemeral = True\<rparr>)
     | Some schedule \<Rightarrow>
         if sm_status schedule \<noteq> SPending then
           (tbl, \<lparr>reply_content = cross_mark @ '' Schedule #'' @ decimal scheduleId @ '' is already ''
                                    @ status_text (sm_status schedule),
                  reply_ephemeral = True\<rparr>)
         else
          (case cancel scheduleId user tbl of
             (tbl1, cancelled) \<Rightarrow>
               if cancelled then
                 (tbl1, \<lparr>reply_content = check_mark @ '' Cancelled schedule **#'' @ decimal scheduleId @ ''**'',
                         reply_ephemeral = False\<rparr>)
               else
                 (tbl1, \<lparr>reply_content = cross_mark @ '' Failed to cancel schedule #'' @ decimal scheduleId,
                         reply_ephemeral = True\<rparr>)))"

subsection \<open>Reading a tick\<close>

text \<open>The ids of the rows a tick started to process, from its \<open>LogProcessing\<close> lines.\<close>

fun processed_ids :: "scheduler_event list \<Rightarrow> int list" where
  "processed_ids [] = []"
| "processed_ids (LogProcessing i # es) = i # processed_ids es"
| "processed_ids (e # es) = processed_ids es"

text \<open>
  The row that the two branches after \<^verbatim>\<open>errore.tryAsync\<close> leave for a schedule:
  \<open>failed\<close> with the message of the \<^verbatim>\<open>Error\<close> returned, or \<open>completed\<close>.
\<close>

definition resolved_row :: "scheduler_env \<Rightarrow> database \<Rightarrow> ScheduledMessage \<Rightarrow> ScheduledMessage" where
  "resolved_row env db r =
     (case fst (executeSchedule env db r) of
        Inl thrown \<Rightarrow>
          r\<lparr>sm_status := SFailed, sm_error_message := Some (units unhandled_exception @ thrown)\<rparr>
      | Inr u \<Rightarrow> r\<lparr>sm_status := SCompleted\<rparr>)"

text \<open>
  A row that is not pending and that no tick in flight has left in its list: no action
  starts it, and every action leaves it as it is.
\<close>

definition settled :: "ScheduledMessage \<Rightarrow> scheduler_state \<Rightarrow> bool" where
  "settled x st \<longleftrightarrow>
     distinct (map sm_id (scheduled_messages (store st)))
     \<and> x \<in> set (scheduled_messages (store st)) \<and> sm_status x \<noteq> SPending
     \<and> (\<forall>L\<in>set (in_flight st). sm_id x \<notin> sm_id ` set L)"

text \<open>
  A row that is in the table as it was read, and that the tick \<open>k\<close>, and no other
  tick in flight, has left in its list.
\<close>

definition awaited :: "ScheduledMessage \<Rightarrow> nat \<Rightarrow> scheduler_state \<Rightarrow> bool" where
  "awaited r k st \<longleftrightarrow>
     distinct (map sm_id (scheduled_messages (store st)))
     \<and> r \<in> set (scheduled_messages (store st))
     \<and> k < length (in_flight st) \<and> r \<in> set (in_flight st ! k)
     \<and> distinct (map sm_id (in_flight st ! k))
     \<and> (\<forall>j<length (in_flight st). j \<noteq> k \<longrightarrow> sm_id r \<notin> sm_id ` set (in_flight st ! j))"

text \<open>
  A row that a tick is after: the table has the row with the columns of \<open>r\<close> but its
  status and error message, and that row is \<open>completed\<close> or \<open>failed\<close>, or it is pending
  and the tick \<open>k\<close> has a row with its id left in its list.
\<close>

definition pursued :: "ScheduledMessage \<Rightarrow> nat \<Rightarrow> scheduler_state \<Rightarrow> bool" where
  "pursued r k st \<longleftrightarrow>
     distinct (map sm_id (scheduled_messages (store st))) \<and> k < length (in_flight st)
     \<and> (\<exists>x\<in>set (scheduled_messages (store st)).
           x\<lparr>sm_status := sm_status r, sm_error_message := sm_error_message r\<rparr> = r
           \<and> (sm_status x = SCompleted \<or> sm_status x = SFailed
                \<or> (sm_status x = SPending \<and> sm_id r \<in> sm_id ` set (in_flight st ! k))))"

text \<open>
  Sample surroundings for concrete runs: schedule 1 targets the thread \<open>t1\<close> of the
  configured channel \<open>c1\<close>, schedule 2 a channel the platform does not know; both are
  due 30 seconds after time 0, and the hub channel of application \<open>app\<close> is \<open>hub\<close>.
\<close>

definition demo_hub_channel :: channel where
  "demo_hub_channel = \<lparr>channel_id = ''hub'', channel_type = GuildText, parentId = None, sendable = True\<rparr>"

definition demo_scheduler_env :: scheduler_env where
  "demo_scheduler_env =
     \<lparr>application_id = Some ''app'',
      channels_fetch = (\<lambda>c. if c = ''t1'' then Inr (Some demo_thread)
                            else if c = ''hub'' then Inr (Some demo_hub_channel) else Inr None),
      sendThreadMessage = (\<lambda>ch content. Inr ()),
      textChannel_send = (\<lambda>ch content. Inr ''msg1''),
      startThread = (\<lambda>m name. Inr demo_thread),
      handleOpencodeSession = (\<lambda>request. Inr ())\<rparr>"

definition demo_schedule1 :: ScheduledMessage where
  "demo_schedule1 =
     \<lparr>sm_id = 1, sm_channel_id = ''c1'', sm_thread_id = Some ''t1'', prompt = units ''Run tests'',
      scheduled_at = 30000, sm_status = SPending, created_by = ''u1'', sm_error_message = None\<rparr>"

definition demo_schedule2 :: ScheduledMessage where
  "demo_schedule2 =
     \<lparr>sm_id = 2, sm_channel_id = ''c9'', sm_thread_id = None, prompt = units ''Deploy'',
      scheduled_at = 30000, sm_status = SPending, created_by = ''u1'', sm_error_message = None\<rparr>"

definition demo_database :: database where
  "demo_database =
     \<lparr>scheduled_messages = [demo_schedule1, demo_schedule2],
      channel_directories = [''c1'' \<mapsto> \<lparr>directory = ''/proj'', appId = None\<rparr>],
      bot_settings = [''app'' \<mapsto> ''hub'']\<rparr>"

section \<open>Credential vault\<close>

subsection \<open>Strings, buffers and base64\<close>

text \<open>
  A buffer is a list of bytes, a byte a \<open>char\<close>. A JavaScript string is modelled by the
  bytes of its UTF-8 encoding, so \<^verbatim>\<open>cipher.update(plaintext, 'utf8')\<close> and
  \<^verbatim>\<open>decrypted.toString('utf8')\<close> do not change the representation; strings with a
  lone surrogate, which UTF-8 cannot carry, are outside the model.

  \<^verbatim>\<open>buffer.toString('base64')\<close>: three bytes give four 6-bit values, written with the
  standard alphabet and padded with \<^verbatim>\<open>=\<close>.
\<close>

definition b64_alphabet :: string where
  "b64_alphabet = ''ABCDEFGHIJKLMNOPQRSTUVWXYZabcdefghijklmnopqrstuvwxyz0123456789+/''"

definition b64_char :: "nat \<Rightarrow> char" where
  "b64_char i = b64_alphabet ! i"

fun sextets :: "char list \<Rightarrow> nat list" where
  "sextets [] = []"
| "sextets [a] = [of_char a div 4, (of_char a mod 4) * 16]"
| "sextets [a, b] =
     [of_char a div 4, (of_char a mod 4) * 16 + of_char b div 16, (of_char b mod 16) * 4]"
| "sextets (a # b # c # rest) =
     [of_char a div 4, (of_char a mod 4) * 16 + of_char b div 16,
      (of_char b mod 16) * 4 + of_char c div 64, of_char c mod 64] @ sextets rest"

definition b64_encode :: "char list \<Rightarrow> string" where
  "b64_encode bytes =
     map b64_char (sextets bytes) @ replicate ((3 - length bytes mod 3) mod 3) (CHR ''='')"

text \<open>
  \<^verbatim>\<open>Buffer.from(s, 'base64')\<close> never throws: it reads up to the first \<^verbatim>\<open>=\<close>, skips
  every character that is not a base64 digit (the URL-safe \<^verbatim>\<open>-\<close> and \<^verbatim>\<open>_\<close> count as
  digits), and turns each group of four digits into three bytes, a last group of three
  or two digits into two bytes or one.
\<close>

fun index_of :: "'a \<Rightarrow> 'a list \<Rightarrow> nat option" where
  "index_of x [] = None"
| "index_of x (y # ys) = (if x = y then Some 0 else map_option Suc (index_of x ys))"

definition b64_value :: "char \<Rightarrow> nat option" where
  "b64_value c =
     (if c = CHR ''-'' then Some 62 else if c = CHR ''_'' then Some 63 else index_of c b64_alphabet)"

fun octets :: "nat list \<Rightarrow> char list" where
  "octets (p # q # r # s # rest) =
     [char_of (p * 4 + q div 16), char_of ((q mod 16) * 16 + r div 4), char_of ((r mod 4) * 64 + s)]
     @ octets rest"
| "octets [p, q, r] = [char_of (p * 4 + q div 16), char_of ((q mod 16) * 16 + r div 4)]"
| "octets [p, q] = [char_of (p * 4 + q div 16)]"
| "octets other = []"

definition b64_decode :: "string \<Rightarrow> char list" where
  "b64_decode s = octets (List.map_filter b64_value (takeWhile (\<lambda>c. c \<noteq> CHR ''='') s))"

text \<open>
  \<^verbatim>\<open>/^[A-Za-z0-9+/]+=*$/.test(s)\<close>: one or more characters of the class, then only
  \<^verbatim>\<open>=\<close> up to the end. The class is the base64 alphabet.
\<close>

definition base64Regex :: "string \<Rightarrow> bool" where
  "base64Regex s =
     (takeWhile (\<lambda>c. c \<in> set b64_alphabet) s \<noteq> []
      \<and> list_all (\<lambda>c. c = CHR ''='') (dropWhile (\<lambda>c. c \<in> set b64_alphabet) s))"

text \<open>\<^verbatim>\<open>s.split(sep)\<close> for a separator of one character; the result is never empty.\<close>

fun split_on :: "char \<Rightarrow> string \<Rightarrow> string list" where
  "split_on sep [] = [[]]"
| "split_on sep (c # cs) =
     (if c = sep then [] # split_on sep cs
      else (case split_on sep cs of [] \<Rightarrow> [[c]] | part # parts \<Rightarrow> (c # part) # parts))"

subsection \<open>Encryption at rest (security.ts)\<close>

text \<open>
  \<^verbatim>\<open>type EncryptedData\<close>: the three fields are base64 strings.
\<close>

record EncryptedData =
  iv :: string
  authTag :: string
  encrypted :: string

text \<open>\<^verbatim>\<open>class DecryptionError\<close>, with its \<^verbatim>\<open>reason\<close>.\<close>

datatype DecryptionError = DecryptionError string

definition IV_LENGTH :: nat where "IV_LENGTH = 12"

text \<open>
  AES-256-GCM itself belongs to the runtime's \<^verbatim>\<open>crypto\<close> library and is a parameter of
  the model. \<open>cipher_final key ivBytes plaintext\<close> is the pair of
  \<^verbatim>\<open>Buffer.concat([cipher.update(plaintext, 'utf8'), cipher.final()])\<close> and
  \<^verbatim>\<open>cipher.getAuthTag()\<close> for \<^verbatim>\<open>createCipheriv(ALGORITHM, key, iv)\<close>;
  \<open>decipher_final key ivBytes tag ciphertext\<close> is the concatenation of
  \<^verbatim>\<open>decipher.update\<close> and \<^verbatim>\<open>decipher.final\<close> after \<^verbatim>\<open>setAuthTag\<close>, or \<open>Inl message\<close>
  for the \<^verbatim>\<open>Error\<close> one of these calls throws. The key is the 32-byte buffer that
  \<^verbatim>\<open>getEncryptionKey\<close> returns.
\<close>

record aes_256_gcm =
  cipher_final :: "char list \<Rightarrow> char list \<Rightarrow> char list \<Rightarrow> char list \<times> char list"
  decipher_final :: "char list \<Rightarrow> char list \<Rightarrow> char list \<Rightarrow> char list \<Rightarrow> string + char list"

text \<open>
  What is used of the library at one call with a given key, IV and plaintext: the
  ciphertext is as long as the plaintext and the tag has 16 bytes (GCM is a counter
  mode with a tag), and deciphering the result with the same key and IV gives the
  plaintext back.
\<close>

definition gcm_lengths :: "aes_256_gcm \<Rightarrow> char list \<Rightarrow> char list \<Rightarrow> char list \<Rightarrow> bool" where
  "gcm_lengths P key ivBytes plaintext =
     (length (fst (cipher_final P key ivBytes plaintext)) = length plaintext
      \<and> length (snd (cipher_final P key ivBytes plaintext)) = 16)"

definition gcm_inverts :: "aes_256_gcm \<Rightarrow> char list \<Rightarrow> char list \<Rightarrow> char list \<Rightarrow> bool" where
  "gcm_inverts P key ivBytes plaintext =
     (decipher_final P key ivBytes (snd (cipher_final P key ivBytes plaintext))
        (fst (cipher_final P key ivBytes plaintext)) = Inr plaintext)"


text \<open>
  \<^verbatim>\<open>encrypt\<close>; \<open>ivBytes\<close> is the result of \<^verbatim>\<open>crypto.randomBytes(IV_LENGTH)\<close>.
\<close>

definition encrypt :: "aes_256_gcm \<Rightarrow> string \<Rightarrow> char list \<Rightarrow> char list \<Rightarrow> EncryptedData" where
  "encrypt P plaintext key ivBytes =
     (case cipher_final P key ivBytes plaintext of
        (ciphertext, tag) \<Rightarrow>
          \<lparr>iv = b64_encode ivBytes, authTag = b64_encode tag, encrypted = b64_encode ciphertext\<rparr>)"

text \<open>
  \<^verbatim>\<open>decrypt\<close>: whatever is thrown inside the \<^verbatim>\<open>try\<close> becomes a \<^verbatim>\<open>DecryptionError\<close>
  with the message as its reason.
\<close>

definition decrypt :: "aes_256_gcm \<Rightarrow> EncryptedData \<Rightarrow> char list \<Rightarrow> DecryptionError + string" where
  "decrypt P data key =
     (case decipher_final P key (b64_decode (iv data)) (b64_decode (authTag data))
             (b64_decode (encrypted data)) of
        Inl reason \<Rightarrow> Inl (DecryptionError reason)
      | Inr decrypted \<Rightarrow> Inr decrypted)"

text \<open>\<^verbatim>\<open>`${data.iv}:${data.authTag}:${data.encrypted}`\<close>\<close>

definition serializeEncrypted :: "EncryptedData \<Rightarrow> string" where
  "serializeEncrypted data = iv data @ '':'' @ authTag data @ '':'' @ encrypted data"

definition deserializeEncrypted :: "string \<Rightarrow> EncryptedData option" where
  "deserializeEncrypted serialized =
     (case split_on (CHR '':'') serialized of
        [ivPart, authTagPart, encryptedPart] \<Rightarrow>
          if ivPart = [] \<or> authTagPart = [] \<or> encryptedPart = [] then None
          else Some \<lparr>iv = ivPart, authTag = authTagPart, encrypted = encryptedPart\<rparr>
      | parts \<Rightarrow> None)"

definition isEncrypted :: "string \<Rightarrow> bool" where
  "isEncrypted v =
     (if v = [] \<or> CHR '':'' \<notin> set v then False
      else if length (split_on (CHR '':'') v) \<noteq> 3 then False
      else list_all (\<lambda>part. length part > 0 \<and> base64Regex part) (split_on (CHR '':'') v))"

subsection \<open>Credential accessors (database.ts)\<close>

text \<open>
  \<^verbatim>\<open>bot_tokens\<close> (\<^verbatim>\<open>app_id TEXT PRIMARY KEY, token TEXT NOT NULL\<close>) maps an application
  to its stored token. \<^verbatim>\<open>getBotToken\<close> returns the table it leaves and its result;
  \<open>ivBytes\<close> is the random IV that it draws if it encrypts.
\<close>

definition getBotToken ::
  "aes_256_gcm \<Rightarrow> char list \<Rightarrow> char list \<Rightarrow> string \<Rightarrow> (string \<rightharpoonup> string)
   \<Rightarrow> (string \<rightharpoonup> string) \<times> string option" where
  "getBotToken P key ivBytes app bot_tokens =
     (case truthy (bot_tokens app) of
        None \<Rightarrow> (bot_tokens, None)
      | Some token \<Rightarrow>
          if \<not> isEncrypted token then
            (bot_tokens(app \<mapsto> serializeEncrypted (encrypt P token key ivBytes)), Some token)
          else
           (case deserializeEncrypted token of
              None \<Rightarrow> (bot_tokens, None)
            | Some data \<Rightarrow>
               (case decrypt P data key of
                  Inl e \<Rightarrow> (bot_tokens, None)
                | Inr plaintext \<Rightarrow> (bot_tokens, Some plaintext))))"

text \<open>\<^verbatim>\<open>INSERT OR REPLACE INTO bot_tokens (app_id, token) VALUES (?, ?)\<close>\<close>

definition setBotToken ::
  "aes_256_gcm \<Rightarrow> char list \<Rightarrow> char list \<Rightarrow> string \<Rightarrow> string \<Rightarrow> (string \<rightharpoonup> string)
   \<Rightarrow> (string \<rightharpoonup> string)" where
  "setBotToken P key ivBytes app token bot_tokens =
     bot_tokens(app \<mapsto> serializeEncrypted (encrypt P token key ivBytes))"

text \<open>
  \<^verbatim>\<open>bot_api_keys\<close> (\<^verbatim>\<open>app_id TEXT PRIMARY KEY\<close>, two nullable columns) and the object
  \<^verbatim>\<open>getBotApiKeys\<close> returns.
\<close>

record bot_api_keys_row =
  gemini_api_key :: "string option"
  xai_api_key :: "string option"

record bot_api_keys =
  geminiApiKey :: "string option"
  xaiApiKey :: "string option"

text \<open>
  The local \<^verbatim>\<open>decryptValue\<close> of \<^verbatim>\<open>getBotApiKeys\<close>; its plaintext branch carries the
  comment \<^verbatim>\<open>// Auto-migrate on next setBotApiKeys call\<close>.
\<close>

definition decryptValue :: "aes_256_gcm \<Rightarrow> char list \<Rightarrow> string option \<Rightarrow> string option" where
  "decryptValue P key v =
     (case truthy v of
        None \<Rightarrow> None
      | Some x \<Rightarrow>
          if \<not> isEncrypted x then Some x
          else
           (case deserializeEncrypted x of
              None \<Rightarrow> None
            | Some data \<Rightarrow>
               (case decrypt P data key of Inl e \<Rightarrow> None | Inr plaintext \<Rightarrow> Some plaintext)))"

text \<open>\<^verbatim>\<open>getBotApiKeys\<close> runs one \<^verbatim>\<open>SELECT\<close> and no write; the table it leaves is its input.\<close>

definition getBotApiKeys ::
  "aes_256_gcm \<Rightarrow> char list \<Rightarrow> string \<Rightarrow> (string \<rightharpoonup> bot_api_keys_row)
   \<Rightarrow> (string \<rightharpoonup> bot_api_keys_row) \<times> bot_api_keys option" where
  "getBotApiKeys P key app tbl =
     (case tbl app of
        None \<Rightarrow> (tbl, None)
      | Some row \<Rightarrow>
          (tbl, Some \<lparr>geminiApiKey = decryptValue P key (gemini_api_key row),
                      xaiApiKey = decryptValue P key (xai_api_key row)\<rparr>))"

text \<open>
  \<^verbatim>\<open>setBotApiKeys\<close>, with the local \<^verbatim>\<open>encryptValue\<close>; each encryption draws its own IV.
\<close>

definition encryptValue :: "aes_256_gcm \<Rightarrow> char list \<Rightarrow> char list \<Rightarrow> string option \<Rightarrow> string option" where
  "encryptValue P key ivBytes v =
     (case truthy v of
        None \<Rightarrow> None
      | Some x \<Rightarrow> Some (serializeEncrypted (encrypt P x key ivBytes)))"

definition setBotApiKeys ::
  "aes_256_gcm \<Rightarrow> char list \<Rightarrow> char list \<Rightarrow> char list \<Rightarrow> string \<Rightarrow> bot_api_keys
   \<Rightarrow> (string \<rightharpoonup> bot_api_keys_row) \<Rightarrow> (string \<rightharpoonup> bot_api_keys_row)" where
  "setBotApiKeys P key ivBytes1 ivBytes2 app keys tbl =
     tbl(app \<mapsto> \<lparr>gemini_api_key = encryptValue P key ivBytes1 (geminiApiKey keys),
                  xai_api_key = encryptValue P key ivBytes2 (xaiApiKey keys)\<rparr>)"

text \<open>
  A stand-in for the library in concrete runs: it reverses the bytes and uses a fixed
  16-byte tag, which it checks.
\<close>

definition demo_gcm :: aes_256_gcm where
  "demo_gcm =
     \<lparr>cipher_final = (\<lambda>key ivBytes plaintext. (rev plaintext, replicate 16 (CHR ''T''))),
      decipher_final = (\<lambda>key ivBytes tag ciphertext.
         if tag = replicate 16 (CHR ''T'') then Inr (rev ciphertext)
         else Inl ''Unsupported state or unable to authenticate data'')\<rparr>"

definition demo_key :: "char list" where "demo_key = replicate 32 (CHR ''k'')"

definition demo_iv :: "char list" where "demo_iv = replicate 12 (CHR ''i'')"



section \<open>Worktree lifecycle\<close>

text \<open>
  C2 (as stated, refuted). The store's worktree operations do not guard the status they
  overwrite. Without any \<^verbatim>\<open>deleteThreadWorktree\<close>: a row that is \<open>ready\<close> becomes
  \<open>error\<close> by \<^verbatim>\<open>setWorktreeError\<close>, a row that is \<open>error\<close> becomes \<open>ready\<close> by
  \<^verbatim>\<open>setWorktreeReady\<close>, and a row that is \<open>ready\<close> goes back to \<open>pending\<close> by
  \<^verbatim>\<open>createPendingWorktree\<close>.
\<close>

theorem worktree_terminal_counterexample:
  "worktree_status_of
     (run_worktree_ops [CreatePendingWorktree ''t1'' ''wt'' ''/proj'', SetWorktreeReady ''t1'' ''/proj/wt'']
        Map.empty) ''t1'' = Some WReady
   \<and> worktree_status_of
     (run_worktree_ops [CreatePendingWorktree ''t1'' ''wt'' ''/proj'', SetWorktreeReady ''t1'' ''/proj/wt'',
                        SetWorktreeError ''t1'' ''boom''] Map.empty) ''t1'' = Some WError
   \<and> worktree_status_of
     (run_worktree_ops [CreatePendingWorktree ''t1'' ''wt'' ''/proj'', SetWorktreeReady ''t1'' ''/proj/wt'',
                        SetWorktreeError ''t1'' ''boom'', SetWorktreeReady ''t1'' ''/proj/wt'']
        Map.empty) ''t1'' = Some WReady
   \<and> worktree_status_of
     (run_worktree_ops [CreatePendingWorktree ''t1'' ''wt'' ''/proj'', SetWorktreeReady ''t1'' ''/proj/wt'',
                        CreatePendingWorktree ''t1'' ''wt2'' ''/proj''] Map.empty) ''t1'' = Some WPending"
  by (simp add: worktree_status_of_def getThreadWorktree_def createPendingWorktree_def
      setWorktreeReady_def setWorktreeError_def)

lemma worktree_op_other_row:
  "worktree_op_thread op \<noteq> t \<Longrightarrow> getThreadWorktree (run_worktree_op op db) t = getThreadWorktree db t"
  by (cases op)
     (auto simp: getThreadWorktree_def createPendingWorktree_def setWorktreeReady_def
        setWorktreeError_def deleteThreadWorktree_def split: option.splits)

lemma worktree_ops_other_row:
  "t \<notin> set (map worktree_op_thread ops) \<Longrightarrow>
   getThreadWorktree (run_worktree_ops ops db) t = getThreadWorktree db t"
  by (induction ops arbitrary: db) (auto simp: worktree_op_other_row)

text \<open>
  C2 (amended). One store operation changes the row of the thread it names and of no
  other thread: the row of every other thread, with all its columns, is as it was, and
  so it is after any sequence of operations none of which names it. On its own thread,
  \<^verbatim>\<open>createPendingWorktree\<close> leaves \<open>pending\<close> whatever was there,
  \<^verbatim>\<open>setWorktreeReady\<close> and \<^verbatim>\<open>setWorktreeError\<close> leave \<open>ready\<close> and \<open>error\<close> on an
  existing row whatever its status was and create no row, and \<^verbatim>\<open>deleteThreadWorktree\<close>
  leaves no row.
\<close>

theorem worktree_op_step:
  "worktree_status_of (run_worktree_op op db) t =
     (if worktree_op_thread op = t then worktree_next_status op (worktree_status_of db t)
      else worktree_status_of db t)
   \<and> (worktree_op_thread op \<noteq> t \<longrightarrow>
        getThreadWorktree (run_worktree_op op db) t = getThreadWorktree db t)
   \<and> (t \<notin> set (map worktree_op_thread ops) \<longrightarrow>
        getThreadWorktree (run_worktree_ops ops db) t = getThreadWorktree db t)"
proof (intro conjI impI)
  show "worktree_status_of (run_worktree_op op db) t =
     (if worktree_op_thread op = t then worktree_next_status op (worktree_status_of db t)
      else worktree_status_of db t)"
    by (cases op)
       (auto simp: worktree_status_of_def getThreadWorktree_def createPendingWorktree_def
          setWorktreeReady_def setWorktreeError_def deleteThreadWorktree_def
          split: option.splits)
next
  assume "worktree_op_thread op \<noteq> t"
  then show "getThreadWorktree (run_worktree_op op db) t = getThreadWorktree db t"
    by (rule worktree_op_other_row)
next
  assume "t \<notin> set (map worktree_op_thread ops)"
  then show "getThreadWorktree (run_worktree_ops ops db) t = getThreadWorktree db t"
    by (rule worktree_ops_other_row)
qed

theorem worktree_op_step_witness:
  "worktree_op_thread (SetWorktreeError ''t1'' ''boom'') \<noteq> ''t2''
   \<and> ''t2'' \<notin> set (map worktree_op_thread
                      [SetWorktreeError ''t1'' ''boom'', DeleteThreadWorktree ''t1'',
                       CreatePendingWorktree ''t1'' ''wt3'' ''/proj''])
   \<and> getThreadWorktree
        (run_worktree_ops [CreatePendingWorktree ''t1'' ''wt'' ''/proj'',
                           CreatePendingWorktree ''t2'' ''wt2'' ''/proj'',
                           SetWorktreeReady ''t2'' ''/proj/wt2''] Map.empty) ''t2''
       = Some \<lparr>wt_thread_id = ''t2'', worktree_name = ''wt2'',
               worktree_directory = Some ''/proj/wt2'', project_directory = ''/proj'',
               wt_status = WReady, wt_error_message = None\<rparr>
   \<and> getThreadWorktree
        (run_worktree_op (SetWorktreeError ''t1'' ''boom'')
           (run_worktree_ops [CreatePendingWorktree ''t1'' ''wt'' ''/proj'',
                              CreatePendingWorktree ''t2'' ''wt2'' ''/proj'',
                              SetWorktreeReady ''t2'' ''/proj/wt2''] Map.empty)) ''t2''
       = Some \<lparr>wt_thread_id = ''t2'', worktree_name = ''wt2'',
               worktree_directory = Some ''/proj/wt2'', project_directory = ''/proj'',
               wt_status = WReady, wt_error_message = None\<rparr>
   \<and> getThreadWorktree
        (run_worktree_ops [SetWorktreeError ''t1'' ''boom'', DeleteThreadWorktree ''t1'',
                           CreatePendingWorktree ''t1'' ''wt3'' ''/proj'']
           (run_worktree_ops [CreatePendingWorktree ''t1'' ''wt'' ''/proj'',
                              CreatePendingWorktree ''t2'' ''wt2'' ''/proj'',
                              SetWorktreeReady ''t2'' ''/proj/wt2''] Map.empty)) ''t2''
       = Some \<lparr>wt_thread_id = ''t2'', worktree_name = ''wt2'',
               worktree_directory = Some ''/proj/wt2'', project_directory = ''/proj'',
               wt_status = WReady, wt_error_message = None\<rparr>
   \<and> worktree_status_of
        (run_worktree_op (SetWorktreeError ''t1'' ''boom'')
           (run_worktree_ops [CreatePendingWorktree ''t1'' ''wt'' ''/proj'',
                              CreatePendingWorktree ''t2'' ''wt2'' ''/proj'',
                              SetWorktreeReady ''t2'' ''/proj/wt2''] Map.empty)) ''t1''
       = Some WError"
proof -
  let ?db = "run_worktree_ops [CreatePendingWorktree ''t1'' ''wt'' ''/proj'',
                               CreatePendingWorktree ''t2'' ''wt2'' ''/proj'',
                               SetWorktreeReady ''t2'' ''/proj/wt2''] Map.empty"
  let ?ops = "[SetWorktreeError ''t1'' ''boom'', DeleteThreadWorktree ''t1'',
               CreatePendingWorktree ''t1'' ''wt3'' ''/proj'']"
  have h1: "worktree_op_thread (SetWorktreeError ''t1'' ''boom'') \<noteq> ''t2''" by simp
  have h2: "''t2'' \<notin> set (map worktree_op_thread ?ops)" by simp
  have row: "getThreadWorktree ?db ''t2''
       = Some \<lparr>wt_thread_id = ''t2'', worktree_name = ''wt2'',
               worktree_directory = Some ''/proj/wt2'', project_directory = ''/proj'',
               wt_status = WReady, wt_error_message = None\<rparr>"
    by (simp add: getThreadWorktree_def createPendingWorktree_def setWorktreeReady_def)
  have st: "worktree_status_of ?db ''t1'' = Some WPending"
    by (simp add: worktree_status_of_def getThreadWorktree_def createPendingWorktree_def
        setWorktreeReady_def)
  note one = worktree_op_step [where op = "SetWorktreeError ''t1'' ''boom''" and db = ?db
      and t = "''t2''" and ops = ?ops]
  note own = worktree_op_step [where op = "SetWorktreeError ''t1'' ''boom''" and db = ?db
      and t = "''t1''" and ops = "[]"]
  have a: "getThreadWorktree (run_worktree_op (SetWorktreeError ''t1'' ''boom'') ?db) ''t2''
           = getThreadWorktree ?db ''t2''"
    using one h1 by blast
  have b: "getThreadWorktree (run_worktree_ops ?ops ?db) ''t2'' = getThreadWorktree ?db ''t2''"
    using one h2 by blast
  have c: "worktree_status_of (run_worktree_op (SetWorktreeError ''t1'' ''boom'') ?db) ''t1''
           = Some WError"
    using own st by (simp del: run_worktree_op.simps run_worktree_ops.simps)
  show ?thesis
    using h1 h2 row a b c by (simp del: run_worktree_op.simps run_worktree_ops.simps)
qed


section \<open>Session mapper\<close>

lemma find_insert_or_replace_key:
  "find (\<lambda>r. key r = key row) (insert_or_replace key row tbl) = Some row"
  by (induction tbl) (auto simp: insert_or_replace_def)

lemma filter_insert_or_replace_key:
  "filter (\<lambda>r. key r = key row) (insert_or_replace key row tbl) = [row]"
proof -
  have "filter (\<lambda>r. key r = key row) (filter (\<lambda>r. key r \<noteq> key row) tbl) = []"
    by (induction tbl) auto
  then show ?thesis by (simp add: insert_or_replace_def)
qed

lemma insert_or_replace_twice:
  "key row' = key row \<Longrightarrow>
   insert_or_replace key row' (insert_or_replace key row tbl) = insert_or_replace key row' tbl"
  by (simp add: insert_or_replace_def)

text \<open>
  C8. Binding thread \<open>T\<close> to session \<open>A\<close> and then to session \<open>B\<close> leaves exactly one
  \<^verbatim>\<open>thread_sessions\<close> row for \<open>T\<close>, that row holds \<open>B\<close>, and the lookup of \<open>T\<close> returns
  \<open>B\<close>; the second write alone decides the table (last writer wins), and writing the
  same binding twice is the same as writing it once.
\<close>

theorem thread_session_upsert_last_writer_wins:
  "filter (\<lambda>r. ts_thread_id r = T) (insert_thread_session T B (insert_thread_session T A tbl))
     = [\<lparr>ts_thread_id = T, session_id = B\<rparr>]
   \<and> select_session_id (insert_thread_session T B (insert_thread_session T A tbl)) T = Some B
   \<and> insert_thread_session T B (insert_thread_session T A tbl) = insert_thread_session T B tbl
   \<and> insert_thread_session T A (insert_thread_session T A tbl) = insert_thread_session T A tbl"
proof -
  let ?rowB = "\<lparr>ts_thread_id = T, session_id = B\<rparr>"
  have one: "filter (\<lambda>r. ts_thread_id r = T) (insert_or_replace ts_thread_id ?rowB tbl') = [?rowB]" for tbl'
    using filter_insert_or_replace_key [of ts_thread_id ?rowB tbl'] by simp
  have look: "find (\<lambda>r. ts_thread_id r = T) (insert_or_replace ts_thread_id ?rowB tbl') = Some ?rowB" for tbl'
    using find_insert_or_replace_key [of ts_thread_id ?rowB tbl'] by simp
  show ?thesis
    by (simp add: insert_thread_session_def select_session_id_def one look insert_or_replace_twice)
qed

text \<open>
  C9 (as stated, refuted). A chat message can carry several parts (the transaction of
  \<^verbatim>\<open>handleResumeCommand\<close> links every part of a batch to one message), and the lookup
  is by message. When another part is linked to the first message, recording part \<open>p1\<close>
  under \<open>m1\<close> and then under \<open>m2\<close> leaves the lookup of \<open>m1\<close> finding that other part.
\<close>

theorem part_message_rerecord_counterexample:
  "select_part_id
     (insert_part_message ''p1'' ''m2'' ''t''
       (insert_part_message ''p1'' ''m1'' ''t''
         (insert_part_messages [''p0'', ''p1''] ''m1'' ''t'' []))) ''m1'' = Some ''p0''"
  by (simp add: select_part_id_def insert_part_message_def insert_or_replace_def)

lemma find_filter_append_None:
  "\<forall>r\<in>set tbl. Q r \<longrightarrow> \<not> P r \<Longrightarrow> \<not> Q row \<Longrightarrow> find Q (filter P tbl @ [row]) = None"
  by (induction tbl) auto

text \<open>
  C9 (amended). Recording part \<open>p\<close> under message \<open>m1\<close> and then under a different
  message \<open>m2\<close> leaves exactly one row for \<open>p\<close>, pointing at \<open>m2\<close>; and when no other
  part of the table is linked to \<open>m1\<close>, the lookup of \<open>m1\<close> afterwards finds nothing.
\<close>

theorem part_message_last_write_wins:
  assumes "m1 \<noteq> m2"
    and "\<forall>r\<in>set tbl. message_id r = m1 \<longrightarrow> part_id r = p"
  shows "filter (\<lambda>r. part_id r = p) (insert_part_message p m2 t2 (insert_part_message p m1 t1 tbl))
           = [\<lparr>part_id = p, message_id = m2, pm_thread_id = t2\<rparr>]
       \<and> select_part_id (insert_part_message p m2 t2 (insert_part_message p m1 t1 tbl)) m1 = None"
proof -
  let ?row1 = "\<lparr>part_id = p, message_id = m1, pm_thread_id = t1\<rparr>"
  let ?row2 = "\<lparr>part_id = p, message_id = m2, pm_thread_id = t2\<rparr>"
  have twice: "insert_part_message p m2 t2 (insert_part_message p m1 t1 tbl)
                 = filter (\<lambda>r. part_id r \<noteq> p) tbl @ [?row2]"
    using insert_or_replace_twice [of part_id ?row2 ?row1 tbl]
    by (simp add: insert_part_message_def insert_or_replace_def)
  have one: "filter (\<lambda>r. part_id r = p) (filter (\<lambda>r. part_id r \<noteq> p) tbl @ [?row2]) = [?row2]"
    using filter_insert_or_replace_key [of part_id ?row2 tbl] by (simp add: insert_or_replace_def)
  have gone: "find (\<lambda>r. message_id r = m1) (filter (\<lambda>r. part_id r \<noteq> p) tbl @ [?row2]) = None"
    using assms by (intro find_filter_append_None) auto
  show ?thesis
    unfolding twice select_part_id_def using one gone by simp
qed

theorem part_message_last_write_wins_witness:
  "''m1'' \<noteq> ''m2''
   \<and> list_all (\<lambda>r. message_id r \<noteq> ''m1'') (insert_part_messages [''p0'', ''p1''] ''m0'' ''t'' [])
   \<and> filter (\<lambda>r. part_id r = ''p1'')
        (insert_part_message ''p1'' ''m2'' ''t''
          (insert_part_message ''p1'' ''m1'' ''t'' (insert_part_messages [''p0'', ''p1''] ''m0'' ''t'' [])))
        = [\<lparr>part_id = ''p1'', message_id = ''m2'', pm_thread_id = ''t''\<rparr>]
   \<and> select_part_id
        (insert_part_message ''p1'' ''m2'' ''t''
          (insert_part_message ''p1'' ''m1'' ''t'' (insert_part_messages [''p0'', ''p1''] ''m0'' ''t'' [])))
        ''m1'' = None"
proof -
  have h1: "''m1'' \<noteq> ''m2''" by simp
  have h2: "\<forall>r\<in>set (insert_part_messages [''p0'', ''p1''] ''m0'' ''t'' []). message_id r = ''m1'' \<longrightarrow> part_id r = ''p1''"
    by (simp add: insert_part_message_def insert_or_replace_def)
  have h3: "list_all (\<lambda>r. message_id r \<noteq> ''m1'') (insert_part_messages [''p0'', ''p1''] ''m0'' ''t'' [])"
    by (simp add: insert_part_message_def insert_or_replace_def)
  show ?thesis
    using h1 h3 part_message_last_write_wins [OF h1 h2, of "''t''" "''t''"] by simp
qed


section \<open>Fork\<close>

text \<open>
  C5 (as stated, refuted). The handler looks the fragment up only after three earlier
  checks. In a thread that is bound to session \<open>s1\<close>, with no fragment recorded for the
  message and no project directory in the channel's metadata, the fork fails with the
  project-directory reply, which is not the fragment-not-found reply.
\<close>

theorem fork_missing_fragment_counterexample:
  "select_session_id demo_thread_sessions ''t1'' = Some ''s1''
   \<and> select_part_id [] (targetMessage_id demo_interaction) = None
   \<and> handleForkContextMenu (demo_fork_env\<lparr>getKimakiMetadata := (\<lambda>ch. None)\<rparr>)
        demo_interaction demo_thread_sessions []
      = (demo_thread_sessions,
         [Reply (cross_mark @ '' Could not find project directory for this channel'')], None)
   \<and> Reply (cross_mark @ '' Could not find project directory for this channel'')
        \<noteq> Reply fork_not_linked_message"
  by (simp add: handleForkContextMenu_def demo_fork_env_def demo_interaction_def
      demo_thread_sessions_def demo_thread_def isThread_def PublicThread_def
      select_session_id_def select_part_id_def insert_thread_session_def insert_or_replace_def
      fork_not_linked_message_def)

text \<open>
  C5 (amended). In every run of the fork handler a thread is created only after a fork
  call that returned session data, and the \<^verbatim>\<open>thread_sessions\<close> table changes only in a
  run that created a thread. When the message has no \<^verbatim>\<open>part_messages\<close> row, the handler
  returns after one error reply: no fork call, no thread, the table as it was; and that
  reply is the fragment-not-found one whenever the interaction is in a thread whose
  channel has a project directory and that is bound to a session (the three checks the
  handler makes first, each with a reply of its own).
\<close>

theorem fork_requires_fragment:
  "thread_only_after_fork False (fst (snd (handleForkContextMenu env i ts pm)))
   \<and> (fst (handleForkContextMenu env i ts pm) = ts
        \<or> list_ex is_ThreadsCreate (fst (snd (handleForkContextMenu env i ts pm))))
   \<and> (select_part_id pm (targetMessage_id i) = None \<longrightarrow>
         fst (handleForkContextMenu env i ts pm) = ts
       \<and> snd (snd (handleForkContextMenu env i ts pm)) = None
       \<and> (\<exists>text. fst (snd (handleForkContextMenu env i ts pm)) = [Reply (cross_mark @ text)])
       \<and> (\<forall>thread. interaction_channel i = Some thread \<and> isThread thread
              \<and> truthy (getKimakiMetadata env (resolveTextChannel env thread)) \<noteq> None
              \<and> truthy (select_session_id ts (channel_id thread)) \<noteq> None
            \<longrightarrow> handleForkContextMenu env i ts pm = (ts, [Reply fork_not_linked_message], None)))"
proof (intro conjI impI allI)
  show "thread_only_after_fork False (fst (snd (handleForkContextMenu env i ts pm)))"
    by (simp add: handleForkContextMenu_def Let_def split: option.splits sum.splits)
  show "fst (handleForkContextMenu env i ts pm) = ts
        \<or> list_ex is_ThreadsCreate (fst (snd (handleForkContextMenu env i ts pm)))"
    by (simp add: handleForkContextMenu_def Let_def split: option.splits sum.splits)
next
  assume none: "select_part_id pm (targetMessage_id i) = None"
  show "fst (handleForkContextMenu env i ts pm) = ts"
    using none by (simp add: handleForkContextMenu_def split: option.splits)
  show "snd (snd (handleForkContextMenu env i ts pm)) = None"
    using none by (simp add: handleForkContextMenu_def split: option.splits)
  show "\<exists>text. fst (snd (handleForkContextMenu env i ts pm)) = [Reply (cross_mark @ text)]"
    using none
    by (auto simp: handleForkContextMenu_def fork_not_linked_message_def split: option.splits)
  fix thread
  assume "interaction_channel i = Some thread \<and> isThread thread
       \<and> truthy (getKimakiMetadata env (resolveTextChannel env thread)) \<noteq> None
       \<and> truthy (select_session_id ts (channel_id thread)) \<noteq> None"
  then show "handleForkContextMenu env i ts pm = (ts, [Reply fork_not_linked_message], None)"
    using none by (auto simp: handleForkContextMenu_def)
qed

theorem fork_requires_fragment_witness:
  "select_part_id [] (targetMessage_id demo_interaction) = None
   \<and> isThread demo_thread
   \<and> handleForkContextMenu demo_fork_env demo_interaction demo_thread_sessions []
      = (demo_thread_sessions, [Reply fork_not_linked_message], None)
   \<and> thread_only_after_fork False
        (fst (snd (handleForkContextMenu demo_fork_env demo_interaction demo_thread_sessions
                     (insert_part_message ''p1'' ''m1'' ''t1'' []))))
   \<and> list_ex is_ThreadsCreate
        (fst (snd (handleForkContextMenu demo_fork_env demo_interaction demo_thread_sessions
                     (insert_part_message ''p1'' ''m1'' ''t1'' []))))"
proof -
  have none: "select_part_id [] (targetMessage_id demo_interaction) = None"
    by (simp add: select_part_id_def)
  have guards: "interaction_channel demo_interaction = Some demo_thread \<and> isThread demo_thread
      \<and> truthy (getKimakiMetadata demo_fork_env (resolveTextChannel demo_fork_env demo_thread)) \<noteq> None
      \<and> truthy (select_session_id demo_thread_sessions (channel_id demo_thread)) \<noteq> None"
    by (simp add: demo_interaction_def demo_thread_def isThread_def PublicThread_def
        demo_fork_env_def demo_thread_sessions_def select_session_id_def
        insert_thread_session_def insert_or_replace_def)
  have run: "fst (snd (handleForkContextMenu demo_fork_env demo_interaction demo_thread_sessions
                         (insert_part_message ''p1'' ''m1'' ''t1'' [])))
             = [DeferReply,
                SessionFork ''s1'' ''p1'' ''/proj''
                  (Inr (Some \<lparr>forked_id = ''s2'', forked_title = Some ''Refactor''\<rparr>)),
                ThreadsCreate ''c1'' ''Fork: Refactor'' ''t2'',
                EditReply (check_mark @ '' Forked session to <#t2>'')]"
    by (simp add: handleForkContextMenu_def demo_fork_env_def demo_interaction_def
        demo_thread_sessions_def demo_thread_def demo_text_channel_def isThread_def
        PublicThread_def select_session_id_def select_part_id_def insert_thread_session_def
        insert_part_message_def insert_or_replace_def)
  from fork_requires_fragment [of demo_fork_env demo_interaction demo_thread_sessions "[]"]
       fork_requires_fragment [of demo_fork_env demo_interaction demo_thread_sessions
                                  "insert_part_message ''p1'' ''m1'' ''t1'' []"]
       none guards run
  show ?thesis by simp
qed


section \<open>Scheduler\<close>

lemma executeSchedule_tables:
  "channel_directories db1 = channel_directories db \<Longrightarrow> executeSchedule env db1 s = executeSchedule env db s"
  by (simp add: executeSchedule_def Let_def split: sum.splits option.splits)

lemma sendScheduleNotification_tables:
  "bot_settings db1 = bot_settings db \<Longrightarrow>
   sendScheduleNotification env db1 s st m = sendScheduleNotification env db s st m"
  by (simp add: sendScheduleNotification_def split: sum.splits option.splits)

lemma processed_ids_append: "processed_ids (xs @ ys) = processed_ids xs @ processed_ids ys"
  by (induction xs rule: processed_ids.induct) auto

lemma processed_ids_executeSchedule: "processed_ids (snd (executeSchedule env db s)) = []"
  by (simp add: executeSchedule_def Let_def split: sum.splits option.splits)

lemma processed_ids_notification: "processed_ids (sendScheduleNotification env db s st m) = []"
  by (simp add: sendScheduleNotification_def split: sum.splits option.splits)

text \<open>
  The loop starts every row of the list it was given, in order; it does not read the
  row's status again before it executes it.
\<close>

lemma loop_processed_ids:
  "processed_ids (snd (processSchedules_loop env L db)) = map sm_id L"
proof (induction L arbitrary: db)
  case Nil
  then show ?case by simp
next
  case (Cons s L)
  obtain res calls where ex: "executeSchedule env db s = (res, calls)" by (cases "executeSchedule env db s")
  have calls: "processed_ids calls = []"
    using processed_ids_executeSchedule [of env db s] ex by simp
  show ?case
    using ex calls
    by (simp add: Let_def case_prod_beta Cons processed_ids_append processed_ids_notification
        split: sum.splits)
qed

lemma loop_table:
  assumes "distinct (map sm_id (scheduled_messages db))" and "set L \<subseteq> set (scheduled_messages db)"
    and "distinct (map sm_id L)"
  shows "scheduled_messages (fst (processSchedules_loop env L db))
         = map (\<lambda>r. if r \<in> set L then resolved_row env db r else r) (scheduled_messages db)"
  using assms
proof (induction L arbitrary: db)
  case Nil
  then show ?case by (simp add: map_idI)
next
  case (Cons s L)
  let ?tbl = "scheduled_messages db"
  obtain res calls where ex: "executeSchedule env db s = (res, calls)" by (cases "executeSchedule env db s")
  define st where "st = (case res of Inl m \<Rightarrow> SFailed | Inr u \<Rightarrow> SCompleted)"
  define msg where "msg = (case res of Inl m \<Rightarrow> Some (units unhandled_exception @ m) | Inr u \<Rightarrow> None)"
  define db1 where "db1 = db\<lparr>scheduled_messages := updateScheduleStatus (sm_id s) st msg ?tbl\<rparr>"
  have step: "fst (processSchedules_loop env (s # L) db) = fst (processSchedules_loop env L db1)"
    using ex by (cases res) (simp_all add: Let_def case_prod_beta st_def msg_def db1_def)
  have s_in: "s \<in> set ?tbl" using Cons.prems by simp
  have same_id: "r = s" if "r \<in> set ?tbl" "sm_id r = sm_id s" for r
    using that s_in Cons.prems(1) by (meson distinct_map inj_onD)
  have upd: "updateScheduleStatus (sm_id s) st msg ?tbl
             = map (\<lambda>r. if r = s then resolved_row env db s else r) ?tbl"
    unfolding updateScheduleStatus_def
    by (rule map_cong) (auto simp: resolved_row_def ex st_def msg_def dest: same_id split: sum.splits)
  have res_id: "sm_id (resolved_row env db s) = sm_id s"
    by (simp add: resolved_row_def split: sum.splits)
  have ids1: "map sm_id (scheduled_messages db1) = map sm_id ?tbl"
    by (simp add: db1_def updateScheduleStatus_def comp_def cong: map_cong)
  have notin: "sm_id s \<notin> sm_id ` set L" using Cons.prems(3) by simp
  have sub1: "set L \<subseteq> set (scheduled_messages db1)"
  proof
    fix r assume r: "r \<in> set L"
    then have "r \<in> set ?tbl" and "r \<noteq> s" using Cons.prems(2) notin by auto
    then show "r \<in> set (scheduled_messages db1)"
      by (auto simp: db1_def upd image_iff)
  qed
  have IH: "scheduled_messages (fst (processSchedules_loop env L db1))
         = map (\<lambda>r. if r \<in> set L then resolved_row env db1 r else r) (scheduled_messages db1)"
    using Cons.IH [of db1] ids1 Cons.prems sub1 by simp
  have "executeSchedule env db1 r = executeSchedule env db r" for r
    by (rule executeSchedule_tables) (simp add: db1_def)
  then have rr: "resolved_row env db1 r = resolved_row env db r" for r
    by (simp add: resolved_row_def)
  have res_notin: "resolved_row env db s \<notin> set L"
    using notin res_id by (metis image_eqI)
  show ?case
    unfolding step IH rr
    apply (simp add: db1_def upd comp_def)
    using res_notin notin by auto
qed

lemma getScheduleById_map:
  assumes "distinct (map sm_id tbl)" and "r \<in> set tbl" and "\<And>x. sm_id (g x) = sm_id x"
  shows "getScheduleById (map g tbl) (sm_id r) = Some (g r)"
  using assms(1,2)
proof (induction tbl)
  case Nil
  then show ?case by simp
next
  case (Cons x tbl)
  then show ?case
    by (auto simp: getScheduleById_def assms(3) image_iff)
qed

lemma resolved_row_id: "sm_id (resolved_row env db r) = sm_id r"
  by (simp add: resolved_row_def split: sum.splits)

lemma resolved_row_status:
  "sm_status (resolved_row env db r) = SCompleted \<or> sm_status (resolved_row env db r) = SFailed"
  by (simp add: resolved_row_def split: sum.splits)

lemma resolved_row_columns:
  "(resolved_row env db r)\<lparr>sm_status := sm_status r, sm_error_message := sm_error_message r\<rparr> = r"
  by (simp add: resolved_row_def split: sum.splits)

text \<open>
  The loop over a list is its first iteration followed by the loop over the rest.
\<close>

lemma loop_Cons:
  "processSchedules_loop env (s # L) db =
     (fst (processSchedules_loop env L (fst (processSchedules_loop env [s] db))),
      snd (processSchedules_loop env [s] db)
        @ snd (processSchedules_loop env L (fst (processSchedules_loop env [s] db))))"
  by (simp add: Let_def case_prod_beta split: sum.splits)

text \<open>
  A tick whose iterations end one after the other, with no other action in between, is
  the loop over the rows it has left; so a tick that runs from its start to its end with
  nothing in between is \<^verbatim>\<open>getPendingSchedules\<close> followed by the loop.
\<close>

lemma iterations_run:
  assumes "k < length (in_flight st)" and "in_flight st ! k = L"
  shows "scheduler_run (replicate (length L) (IterationEnds k env)) st
         = \<lparr>store = fst (processSchedules_loop env L (store st)),
            in_flight = (in_flight st)[k := []],
            trace = trace st @ snd (processSchedules_loop env L (store st))\<rparr>"
  using assms
proof (induction L arbitrary: st)
  case Nil
  then have "(in_flight st)[k := []] = in_flight st" by (metis list_update_id)
  then show ?case by simp
next
  case (Cons s L)
  define st1 where "st1 = scheduler_step (IterationEnds k env) st"
  have st1: "st1 = \<lparr>store = fst (processSchedules_loop env [s] (store st)),
                    in_flight = (in_flight st)[k := L],
                    trace = trace st @ snd (processSchedules_loop env [s] (store st))\<rparr>"
    using Cons.prems by (simp add: st1_def case_prod_beta del: processSchedules_loop.simps)
  have "scheduler_run (replicate (length L) (IterationEnds k env)) st1
         = \<lparr>store = fst (processSchedules_loop env L (store st1)),
            in_flight = (in_flight st1)[k := []],
            trace = trace st1 @ snd (processSchedules_loop env L (store st1))\<rparr>"
    by (rule Cons.IH) (use Cons.prems in \<open>simp_all add: st1\<close>)
  then show ?case
    unfolding loop_Cons [of env s L]
    by (simp add: st1_def [symmetric] del: processSchedules_loop.simps scheduler_step.simps)
       (simp add: st1)
qed

lemma solo_tick_run:
  "scheduler_run
     (TimerFires now # replicate (length (getPendingSchedules now (scheduled_messages (store st))))
                         (IterationEnds (length (in_flight st)) env)) st
   = \<lparr>store = fst (processSchedules_loop env
                       (getPendingSchedules now (scheduled_messages (store st))) (store st)),
      in_flight = in_flight st @ [[]],
      trace = trace st @ snd (processSchedules_loop env
                                (getPendingSchedules now (scheduled_messages (store st))) (store st))\<rparr>"
proof -
  let ?L = "getPendingSchedules now (scheduled_messages (store st))"
  define st0 where "st0 = scheduler_step (TimerFires now) st"
  have a: "length (in_flight st) < length (in_flight st0)" and b: "in_flight st0 ! length (in_flight st) = ?L"
    and c: "store st0 = store st" "trace st0 = trace st" "in_flight st0 = in_flight st @ [?L]"
    by (simp_all add: st0_def)
  show ?thesis
    using iterations_run [OF a b, of env]
    by (simp add: st0_def [symmetric] del: scheduler_step.simps) (simp add: c)
qed

text \<open>
  Whatever the platform answers, the iterations of a tick start the rows it has left, in
  order, and leave it with none.
\<close>

lemma iterations_processed:
  assumes "k < length (in_flight st)" and "in_flight st ! k = L" and "length envs = length L"
  shows "processed_ids (trace (scheduler_run (map (IterationEnds k) envs) st))
           = processed_ids (trace st) @ map sm_id L
         \<and> in_flight (scheduler_run (map (IterationEnds k) envs) st) = (in_flight st)[k := []]"
  using assms
proof (induction L arbitrary: st envs)
  case Nil
  then have "(in_flight st)[k := []] = in_flight st" by (metis list_update_id)
  then show ?case using Nil by simp
next
  case (Cons s L)
  then obtain env rest where envs: "envs = env # rest" and len: "length rest = length L"
    by (cases envs) auto
  define st1 where "st1 = scheduler_step (IterationEnds k env) st"
  have st1: "st1 = \<lparr>store = fst (processSchedules_loop env [s] (store st)),
                    in_flight = (in_flight st)[k := L],
                    trace = trace st @ snd (processSchedules_loop env [s] (store st))\<rparr>"
    using Cons.prems by (simp add: st1_def case_prod_beta del: processSchedules_loop.simps)
  have ids: "processed_ids (trace st1) = processed_ids (trace st) @ [sm_id s]"
    using loop_processed_ids [of env "[s]" "store st"] by (simp add: st1 processed_ids_append)
  have "processed_ids (trace (scheduler_run (map (IterationEnds k) rest) st1))
           = processed_ids (trace st1) @ map sm_id L
         \<and> in_flight (scheduler_run (map (IterationEnds k) rest) st1) = (in_flight st1)[k := []]"
    by (rule Cons.IH) (use Cons.prems len in \<open>simp_all add: st1\<close>)
  then show ?case
    by (simp add: envs st1_def [symmetric] ids del: scheduler_step.simps) (simp add: st1)
qed

text \<open>
  An iteration writes the status and the message of the rows with the id of its row,
  and starts that row only.
\<close>

lemma iteration_table:
  "\<exists>status message. scheduled_messages (fst (processSchedules_loop env [s] db))
       = updateScheduleStatus (sm_id s) status message (scheduled_messages db)"
proof (cases "fst (executeSchedule env db s)")
  case (Inl thrown)
  then have "scheduled_messages (fst (processSchedules_loop env [s] db))
       = updateScheduleStatus (sm_id s) SFailed (Some (units unhandled_exception @ thrown))
           (scheduled_messages db)"
    by (simp add: Let_def case_prod_beta)
  then show ?thesis by blast
next
  case (Inr u)
  then have "scheduled_messages (fst (processSchedules_loop env [s] db))
       = updateScheduleStatus (sm_id s) SCompleted None (scheduled_messages db)"
    by (simp add: Let_def case_prod_beta)
  then show ?thesis by blast
qed

lemma updateScheduleStatus_ids:
  "map sm_id (updateScheduleStatus i status message tbl) = map sm_id tbl"
  by (simp add: updateScheduleStatus_def comp_def cong: map_cong)

lemma updateScheduleStatus_other:
  "x \<in> set tbl \<Longrightarrow> sm_id x \<noteq> i \<Longrightarrow> x \<in> set (updateScheduleStatus i status message tbl)"
  by (auto simp: updateScheduleStatus_def image_iff intro!: bexI [of _ x])

lemma getScheduleById_update:
  "getScheduleById (updateScheduleStatus i status message tbl) j
   = (if j = i
      then map_option (\<lambda>x. x\<lparr>sm_status := status,
                              sm_error_message := (case message of None \<Rightarrow> sm_error_message x
                                                   | Some m \<Rightarrow> Some m)\<rparr>)
             (getScheduleById tbl j)
      else getScheduleById tbl j)"
  by (induction tbl) (auto simp: getScheduleById_def updateScheduleStatus_def)

lemma getScheduleById_member:
  "distinct (map sm_id tbl) \<Longrightarrow> x \<in> set tbl \<Longrightarrow> getScheduleById tbl (sm_id x) = Some x"
  using getScheduleById_map [of tbl x "\<lambda>r. r"] by simp

lemma settled_step:
  assumes "settled x st"
  shows "settled x (scheduler_step a st)
         \<and> (\<exists>added. trace (scheduler_step a st) = trace st @ added
                     \<and> sm_id x \<notin> set (processed_ids added))"
proof (cases a)
  case (TimerFires now)
  have "sm_id x \<notin> sm_id ` set (getPendingSchedules now (scheduled_messages (store st)))"
  proof
    assume "sm_id x \<in> sm_id ` set (getPendingSchedules now (scheduled_messages (store st)))"
    then obtain y where y: "y \<in> set (scheduled_messages (store st))" "sm_status y = SPending"
        "sm_id y = sm_id x"
      by (auto simp: getPendingSchedules_def)
    then have "y = x" using assms unfolding settled_def by (meson distinct_map inj_onD)
    then show False using y assms by (simp add: settled_def)
  qed
  then show ?thesis using assms by (auto simp: TimerFires settled_def)
next
  case (IterationEnds k env)
  show ?thesis
  proof (cases "k < length (in_flight st) \<and> in_flight st ! k \<noteq> []")
    case False
    then show ?thesis using assms by (auto simp: IterationEnds split: list.splits)
  next
    case True
    then obtain s L where sL: "in_flight st ! k = s # L" by (cases "in_flight st ! k") auto
    have mem: "s # L \<in> set (in_flight st)" using True sL by (metis nth_mem)
    then have s: "sm_id s \<noteq> sm_id x" and L: "sm_id x \<notin> sm_id ` set L"
      using assms by (auto simp: settled_def)
    have st1: "scheduler_step a st
                 = \<lparr>store = fst (processSchedules_loop env [s] (store st)),
                    in_flight = (in_flight st)[k := L],
                    trace = trace st @ snd (processSchedules_loop env [s] (store st))\<rparr>"
      using True sL by (simp add: IterationEnds case_prod_beta del: processSchedules_loop.simps)
    obtain status message where tbl:
      "scheduled_messages (fst (processSchedules_loop env [s] (store st)))
         = updateScheduleStatus (sm_id s) status message (scheduled_messages (store st))"
      using iteration_table by blast
    have flights: "\<forall>M\<in>set ((in_flight st)[k := L]). sm_id x \<notin> sm_id ` set M"
    proof
      fix M assume "M \<in> set ((in_flight st)[k := L])"
      then have "M = L \<or> M \<in> set (in_flight st)"
        using set_update_subset_insert [of "in_flight st" k L] by auto
      then show "sm_id x \<notin> sm_id ` set M" using L assms by (auto simp: settled_def)
    qed
    have ids: "processed_ids (snd (processSchedules_loop env [s] (store st))) = [sm_id s]"
      using loop_processed_ids [of env "[s]" "store st"] by simp
    have "settled x (scheduler_step a st)"
      unfolding settled_def st1
      using assms s flights
      by (simp add: tbl updateScheduleStatus_ids updateScheduleStatus_other settled_def
          del: processSchedules_loop.simps)
    moreover have "sm_id x \<notin> set (processed_ids (snd (processSchedules_loop env [s] (store st))))"
      using s ids by simp
    ultimately show ?thesis unfolding st1 by auto
  qed
qed

lemma settled_run:
  assumes "settled x st"
  shows "settled x (scheduler_run actions st)
         \<and> (\<exists>added. trace (scheduler_run actions st) = trace st @ added
                     \<and> sm_id x \<notin> set (processed_ids added))"
  using assms
proof (induction actions arbitrary: st)
  case Nil
  then show ?case by simp
next
  case (Cons a actions)
  from settled_step [OF Cons.prems, of a] obtain added1 where
    s1: "settled x (scheduler_step a st)" and
    t1: "trace (scheduler_step a st) = trace st @ added1" "sm_id x \<notin> set (processed_ids added1)"
    by blast
  from Cons.IH [OF s1] obtain added2 where
    s2: "settled x (scheduler_run actions (scheduler_step a st))" and
    t2: "trace (scheduler_run actions (scheduler_step a st)) = trace (scheduler_step a st) @ added2"
        "sm_id x \<notin> set (processed_ids added2)"
    by blast
  have "trace (scheduler_run (a # actions) st) = trace st @ (added1 @ added2)"
    using t1 t2 by simp
  moreover have "sm_id x \<notin> set (processed_ids (added1 @ added2))"
    using t1 t2 by (simp add: processed_ids_append)
  ultimately show ?case using s2 by auto
qed

lemma count_list_append: "count_list (xs @ ys) x = count_list xs x + count_list ys x"
  by (induction xs) auto

lemma count_list_absent: "x \<notin> set xs \<Longrightarrow> count_list xs x = 0"
  by (induction xs) auto

lemma sendScheduleNotification_hub:
  assumes "truthy (application_id env) = Some app"
    and "truthy (getBotSettings_hub_channel_id (bot_settings db) app) = Some hub"
    and "channels_fetch env hub = Inr (Some hubChannel)" and "sendable hubChannel"
  shows "sendScheduleNotification env db s st m
         = [HubChannelSend (channel_id hubChannel) (scheduleNotificationContent s st m)]"
  using assms by (simp add: sendScheduleNotification_def)

lemma sendScheduleNotification_silent:
  assumes "\<not> (\<exists>app hub hubChannel.
               truthy (application_id env) = Some app
               \<and> truthy (getBotSettings_hub_channel_id (bot_settings db) app) = Some hub
               \<and> channels_fetch env hub = Inr (Some hubChannel) \<and> sendable hubChannel)"
  shows "sendScheduleNotification env db s st m = []"
  using assms by (auto simp: sendScheduleNotification_def split: option.splits sum.splits)

lemmas demo_defs = demo_scheduler_env_def demo_database_def demo_schedule1_def demo_schedule2_def
  demo_thread_def demo_hub_channel_def

lemma demo_exec2:
  "fst (executeSchedule demo_scheduler_env demo_database demo_schedule2)
   = Inl (units ''Channel c9 not found'')"
  by (simp add: executeSchedule_def Let_def demo_defs units_def)

lemma set_list_update_cases:
  "M \<in> set (xs[k := y]) \<Longrightarrow> M = y \<or> (\<exists>j<length xs. j \<noteq> k \<and> M = xs ! j)"
  by (metis in_set_conv_nth length_list_update nth_list_update_eq nth_list_update_neq)

lemma iteration_step:
  assumes "j < length (in_flight st)" and "in_flight st ! j = s # L"
  shows "scheduler_step (IterationEnds j env) st
           = \<lparr>store = fst (processSchedules_loop env [s] (store st)),
              in_flight = (in_flight st)[j := L],
              trace = trace st @ snd (processSchedules_loop env [s] (store st))\<rparr>"
  using assms by (simp add: case_prod_beta del: processSchedules_loop.simps)

lemma iteration_resolves:
  assumes "distinct (map sm_id (scheduled_messages db))" and "r \<in> set (scheduled_messages db)"
  shows "resolved_row env db r \<in> set (scheduled_messages (fst (processSchedules_loop env [r] db)))"
proof -
  have "scheduled_messages (fst (processSchedules_loop env [r] db))
        = map (\<lambda>x. if x \<in> set [r] then resolved_row env db x else x) (scheduled_messages db)"
    by (rule loop_table) (use assms in simp_all)
  then show ?thesis using assms(2) by (auto simp: image_iff intro!: bexI [of _ r])
qed

text \<open>
  While a row is awaited, the end of an iteration either leaves it awaited and is not
  its start, or is the iteration of that row and leaves it settled.
\<close>

lemma awaited_step:
  assumes "awaited r k st" and "sm_status r = SPending"
  shows "(awaited r k (scheduler_step (IterationEnds j env) st)
          \<and> (\<exists>added. trace (scheduler_step (IterationEnds j env) st) = trace st @ added
                      \<and> sm_id r \<notin> set (processed_ids added)))
       \<or> (settled (resolved_row env (store st) r) (scheduler_step (IterationEnds j env) st)
          \<and> (\<exists>added. trace (scheduler_step (IterationEnds j env) st) = trace st @ added
                      \<and> processed_ids added = [sm_id r]))"
proof (cases "j < length (in_flight st) \<and> in_flight st ! j \<noteq> []")
  case False
  then have "scheduler_step (IterationEnds j env) st = st" by (auto split: list.splits)
  then show ?thesis using assms(1) by simp
next
  case True
  then obtain s L where sL: "in_flight st ! j = s # L" by (cases "in_flight st ! j") auto
  let ?st1 = "scheduler_step (IterationEnds j env) st"
  have st1: "?st1 = \<lparr>store = fst (processSchedules_loop env [s] (store st)),
                     in_flight = (in_flight st)[j := L],
                     trace = trace st @ snd (processSchedules_loop env [s] (store st))\<rparr>"
    using True sL by (intro iteration_step) simp_all
  obtain status message where tbl:
    "scheduled_messages (fst (processSchedules_loop env [s] (store st)))
       = updateScheduleStatus (sm_id s) status message (scheduled_messages (store st))"
    using iteration_table by blast
  have ids: "processed_ids (snd (processSchedules_loop env [s] (store st))) = [sm_id s]"
    using loop_processed_ids [of env "[s]" "store st"] by simp
  have dist: "distinct (map sm_id (scheduled_messages (store st)))"
    and r_in: "r \<in> set (scheduled_messages (store st))"
    and k: "k < length (in_flight st)" and r_k: "r \<in> set (in_flight st ! k)"
    and dist_k: "distinct (map sm_id (in_flight st ! k))"
    and others: "\<And>i. i < length (in_flight st) \<Longrightarrow> i \<noteq> k \<Longrightarrow> sm_id r \<notin> sm_id ` set (in_flight st ! i)"
    using assms(1) by (auto simp: awaited_def)
  have flights1: "in_flight ?st1 = (in_flight st)[j := L]"
    by (simp add: st1 del: processSchedules_loop.simps scheduler_step.simps)
  have dist1: "distinct (map sm_id (scheduled_messages (store ?st1)))"
    using dist by (simp add: st1 tbl updateScheduleStatus_ids del: processSchedules_loop.simps scheduler_step.simps)
  show ?thesis
  proof (cases "j = k \<and> s = r")
    case True
    then have jk: "j = k" and sr: "s = r" by simp_all
    have notin_L: "sm_id r \<notin> sm_id ` set L" using dist_k sL jk sr by simp
    have flights: "\<forall>M\<in>set (in_flight ?st1). sm_id r \<notin> sm_id ` set M"
    proof
      fix M assume "M \<in> set (in_flight ?st1)"
      then have "M \<in> set ((in_flight st)[k := L])"
        using flights1 jk by simp
      then have "M = L \<or> (\<exists>i<length (in_flight st). i \<noteq> k \<and> M = in_flight st ! i)"
        by (rule set_list_update_cases)
      then show "sm_id r \<notin> sm_id ` set M" using notin_L others by blast
    qed
    have "resolved_row env (store st) r \<in> set (scheduled_messages (store ?st1))"
      using iteration_resolves [OF dist r_in, of env]
      by (simp add: st1 sr del: processSchedules_loop.simps scheduler_step.simps)
    moreover have "sm_status (resolved_row env (store st) r) \<noteq> SPending"
      using resolved_row_status [of env "store st" r] by auto
    ultimately have "settled (resolved_row env (store st) r) ?st1"
      using dist1 flights by (simp add: settled_def resolved_row_id)
    moreover have "\<exists>added. trace ?st1 = trace st @ added \<and> processed_ids added = [sm_id r]"
      using ids by (simp add: st1 sr del: processSchedules_loop.simps scheduler_step.simps)
    ultimately show ?thesis by blast
  next
    case False
    have s_r: "sm_id s \<noteq> sm_id r"
    proof (cases "j = k")
      case True
      then have "s \<noteq> r" and "r \<in> set (s # L)" and "distinct (map sm_id (s # L))"
        using False r_k dist_k sL by auto
      then show ?thesis by (auto simp: image_iff)
    next
      case False
      then show ?thesis using others [of j] True sL by auto
    qed
    have r_in1: "r \<in> set (scheduled_messages (store ?st1))"
      using r_in s_r
      by (simp add: st1 tbl updateScheduleStatus_other del: processSchedules_loop.simps scheduler_step.simps)
    have len: "length (in_flight ?st1) = length (in_flight st)"
      by (simp add: st1 del: processSchedules_loop.simps scheduler_step.simps)
    have k_list: "r \<in> set (in_flight ?st1 ! k) \<and> distinct (map sm_id (in_flight ?st1 ! k))"
    proof (cases "j = k")
      case True
      then have "r \<in> set L" and "distinct (map sm_id L)"
        using r_k dist_k sL s_r by auto
      then show ?thesis using True k flights1 by simp
    next
      case False
      then show ?thesis using r_k dist_k flights1 by simp
    qed
    have others1: "sm_id r \<notin> sm_id ` set (in_flight ?st1 ! i)"
      if "i < length (in_flight st)" "i \<noteq> k" for i
    proof (cases "i = j")
      case True
      then have "sm_id r \<notin> sm_id ` set (s # L)" using others [of i] that sL by simp
      then show ?thesis using True that flights1 by simp
    next
      case False
      then show ?thesis using others [of i] that flights1 by simp
    qed
    have "awaited r k ?st1"
      unfolding awaited_def using dist1 r_in1 k k_list others1 len by simp
    moreover have "\<exists>added. trace ?st1 = trace st @ added \<and> sm_id r \<notin> set (processed_ids added)"
      using ids s_r by (simp add: st1 del: processSchedules_loop.simps scheduler_step.simps)
    ultimately show ?thesis by blast
  qed
qed

lemma awaited_run:
  assumes "awaited r k st" and "sm_status r = SPending"
  shows "(awaited r k (scheduler_run (map (case_prod IterationEnds) mid) st)
          \<and> count_list (processed_ids (trace (scheduler_run (map (case_prod IterationEnds) mid) st)))
              (sm_id r) = count_list (processed_ids (trace st)) (sm_id r))
       \<or> (\<exists>x. settled x (scheduler_run (map (case_prod IterationEnds) mid) st)
              \<and> sm_id x = sm_id r
              \<and> (sm_status x = SCompleted \<or> sm_status x = SFailed)
              \<and> x\<lparr>sm_status := sm_status r, sm_error_message := sm_error_message r\<rparr> = r
              \<and> count_list (processed_ids (trace (scheduler_run (map (case_prod IterationEnds) mid) st)))
                  (sm_id r) = count_list (processed_ids (trace st)) (sm_id r) + 1)"
  using assms(1)
proof (induction mid arbitrary: st)
  case Nil
  then show ?case by simp
next
  case (Cons a mid)
  obtain j env where a: "a = (j, env)" by (cases a)
  let ?st1 = "scheduler_step (IterationEnds j env) st"
  let ?rest = "map (case_prod IterationEnds) mid"
  have run: "scheduler_run (map (case_prod IterationEnds) (a # mid)) st = scheduler_run ?rest ?st1"
    by (simp add: a del: scheduler_step.simps)
  from awaited_step [OF Cons.prems assms(2), of j env]
  consider (waits) added where "awaited r k ?st1" "trace ?st1 = trace st @ added"
      "sm_id r \<notin> set (processed_ids added)"
    | (ends) added where "settled (resolved_row env (store st) r) ?st1"
      "trace ?st1 = trace st @ added" "processed_ids added = [sm_id r]"
    by blast
  then show ?case
  proof cases
    case waits
    have same: "count_list (processed_ids (trace ?st1)) (sm_id r)
                = count_list (processed_ids (trace st)) (sm_id r)"
      using waits(3)
      by (simp add: waits(2) processed_ids_append count_list_append count_list_absent
          del: scheduler_step.simps)
    show ?thesis
      unfolding run using Cons.IH [OF waits(1)] by (simp only: same)
  next
    case ends
    let ?x = "resolved_row env (store st) r"
    from settled_run [OF ends(1), of ?rest] obtain more where
      later: "settled ?x (scheduler_run ?rest ?st1)"
        "trace (scheduler_run ?rest ?st1) = trace ?st1 @ more"
        "sm_id r \<notin> set (processed_ids more)"
      by (auto simp: resolved_row_id simp del: scheduler_step.simps)
    have "count_list (processed_ids (trace (scheduler_run ?rest ?st1))) (sm_id r)
          = count_list (processed_ids (trace st)) (sm_id r) + 1"
      using later(3) ends(3)
      by (simp add: later(2) ends(2) processed_ids_append count_list_append count_list_absent
          del: scheduler_step.simps)
    then have "settled ?x (scheduler_run ?rest ?st1) \<and> sm_id ?x = sm_id r
        \<and> (sm_status ?x = SCompleted \<or> sm_status ?x = SFailed)
        \<and> ?x\<lparr>sm_status := sm_status r, sm_error_message := sm_error_message r\<rparr> = r
        \<and> count_list (processed_ids (trace (scheduler_run ?rest ?st1))) (sm_id r)
            = count_list (processed_ids (trace st)) (sm_id r) + 1"
      using later(1) resolved_row_status [of env "store st" r]
        resolved_row_columns [where env = env and db = "store st" and r = r]
      by (simp add: resolved_row_id del: scheduler_step.simps)
    then show ?thesis unfolding run by blast
  qed
qed

lemma iteration_table_status:
  "\<exists>status message. (status = SCompleted \<or> status = SFailed)
     \<and> scheduled_messages (fst (processSchedules_loop env [s] db))
         = updateScheduleStatus (sm_id s) status message (scheduled_messages db)"
proof (cases "fst (executeSchedule env db s)")
  case (Inl thrown)
  then have "scheduled_messages (fst (processSchedules_loop env [s] db))
       = updateScheduleStatus (sm_id s) SFailed (Some (units unhandled_exception @ thrown))
           (scheduled_messages db)"
    by (simp add: Let_def case_prod_beta)
  then show ?thesis by blast
next
  case (Inr u)
  then have "scheduled_messages (fst (processSchedules_loop env [s] db))
       = updateScheduleStatus (sm_id s) SCompleted None (scheduled_messages db)"
    by (simp add: Let_def case_prod_beta)
  then show ?thesis by blast
qed

text \<open>
  Overlapping ticks or not: a tick goes after the rows of its list until they are
  \<open>completed\<close> or \<open>failed\<close>.
\<close>

lemma pursued_step:
  assumes "pursued r k st"
  shows "pursued r k (scheduler_step a st)"
proof (cases a)
  case (TimerFires now)
  then show ?thesis using assms by (auto simp: pursued_def nth_append)
next
  case (IterationEnds j env)
  show ?thesis
  proof (cases "j < length (in_flight st) \<and> in_flight st ! j \<noteq> []")
    case False
    then have "scheduler_step a st = st" by (auto simp: IterationEnds split: list.splits)
    then show ?thesis using assms by simp
  next
    case True
    then obtain s L where sL: "in_flight st ! j = s # L" by (cases "in_flight st ! j") auto
    let ?st1 = "scheduler_step a st"
    have st1: "?st1 = \<lparr>store = fst (processSchedules_loop env [s] (store st)),
                       in_flight = (in_flight st)[j := L],
                       trace = trace st @ snd (processSchedules_loop env [s] (store st))\<rparr>"
      unfolding IterationEnds using True sL by (intro iteration_step) simp_all
    obtain status message where status: "status = SCompleted \<or> status = SFailed" and tbl:
      "scheduled_messages (fst (processSchedules_loop env [s] (store st)))
         = updateScheduleStatus (sm_id s) status message (scheduled_messages (store st))"
      using iteration_table_status by blast
    have table1: "scheduled_messages (store ?st1)
                  = updateScheduleStatus (sm_id s) status message (scheduled_messages (store st))"
      and flights1: "in_flight ?st1 = (in_flight st)[j := L]"
      by (simp_all add: st1 tbl del: processSchedules_loop.simps scheduler_step.simps)
    from assms obtain x where
      dist: "distinct (map sm_id (scheduled_messages (store st)))" and k: "k < length (in_flight st)"
      and x_in: "x \<in> set (scheduled_messages (store st))"
      and cols: "x\<lparr>sm_status := sm_status r, sm_error_message := sm_error_message r\<rparr> = r"
      and st_x: "sm_status x = SCompleted \<or> sm_status x = SFailed
                \<or> (sm_status x = SPending \<and> sm_id r \<in> sm_id ` set (in_flight st ! k))"
      by (auto simp: pursued_def)
    have "sm_id (x\<lparr>sm_status := sm_status r, sm_error_message := sm_error_message r\<rparr>) = sm_id r"
      by (simp only: cols)
    then have id_x: "sm_id x = sm_id r" by simp
    have dist1: "distinct (map sm_id (scheduled_messages (store ?st1)))"
      using dist by (simp add: table1 updateScheduleStatus_ids)
    have k1: "k < length (in_flight ?st1)" using k by (simp add: flights1)
    show ?thesis
    proof (cases "sm_id s = sm_id r")
      case True
      define x1 where "x1 = x\<lparr>sm_status := status,
          sm_error_message := (case message of None \<Rightarrow> sm_error_message x | Some m \<Rightarrow> Some m)\<rparr>"
      have "x1 \<in> set (scheduled_messages (store ?st1))"
        using x_in True id_x
        by (auto simp: table1 updateScheduleStatus_def x1_def image_iff intro!: bexI [of _ x])
      moreover have "x1\<lparr>sm_status := sm_status r, sm_error_message := sm_error_message r\<rparr> = r"
        using cols by (simp add: x1_def)
      moreover have "sm_status x1 = SCompleted \<or> sm_status x1 = SFailed"
        using status by (simp add: x1_def)
      ultimately show ?thesis
        unfolding pursued_def using dist1 k1 by blast
    next
      case False
      have x_in1: "x \<in> set (scheduled_messages (store ?st1))"
        using x_in False id_x by (simp add: table1 updateScheduleStatus_other)
      have "sm_id r \<in> sm_id ` set (in_flight ?st1 ! k)"
        if "sm_id r \<in> sm_id ` set (in_flight st ! k)"
      proof (cases "j = k")
        case True
        then have "sm_id r \<in> sm_id ` set (s # L)" using that sL by simp
        then have "sm_id r \<in> sm_id ` set L" using False by auto
        then show ?thesis using True k flights1 by simp
      next
        case False
        then show ?thesis using that flights1 by simp
      qed
      then have "sm_status x = SCompleted \<or> sm_status x = SFailed
                \<or> (sm_status x = SPending \<and> sm_id r \<in> sm_id ` set (in_flight ?st1 ! k))"
        using st_x by blast
      then show ?thesis
        unfolding pursued_def using dist1 k1 x_in1 cols by blast
    qed
  qed
qed

lemma pursued_run:
  "pursued r k st \<Longrightarrow> pursued r k (scheduler_run actions st)"
  by (induction actions arbitrary: st) (simp_all add: pursued_step del: scheduler_step.simps)

text \<open>
  C1 (as stated, refuted). The timer starts a tick every 10 seconds and does not wait for
  the tick before. Schedules 1 and 2 are due at 30000. The tick of 30000 starts and waits
  for the session of schedule 1; the timer fires again at 40000, and the second tick
  reads the table while both rows are still pending. The iterations of the first tick
  end, which leaves schedule 1 \<open>completed\<close> and no row pending; the second tick works
  through the list it read all the same: schedule 1 is started twice, and the session
  handler is given its prompt twice.
\<close>

theorem overlapping_ticks_counterexample:
  "getScheduleById
      (scheduled_messages (store (scheduler_run
         [TimerFires 30000, TimerFires 40000,
          IterationEnds 0 demo_scheduler_env, IterationEnds 0 demo_scheduler_env]
         (scheduler_start demo_database)))) 1
     = Some (demo_schedule1\<lparr>sm_status := SCompleted\<rparr>)
   \<and> getPendingSchedules 40000
        (scheduled_messages (store (scheduler_run
           [TimerFires 30000, TimerFires 40000,
            IterationEnds 0 demo_scheduler_env, IterationEnds 0 demo_scheduler_env]
           (scheduler_start demo_database)))) = []
   \<and> count_list (processed_ids (trace (scheduler_run
         [TimerFires 30000, TimerFires 40000,
          IterationEnds 0 demo_scheduler_env, IterationEnds 0 demo_scheduler_env,
          IterationEnds 1 demo_scheduler_env, IterationEnds 1 demo_scheduler_env]
         (scheduler_start demo_database)))) 1 = 2
   \<and> count_list (trace (scheduler_run
         [TimerFires 30000, TimerFires 40000,
          IterationEnds 0 demo_scheduler_env, IterationEnds 0 demo_scheduler_env,
          IterationEnds 1 demo_scheduler_env, IterationEnds 1 demo_scheduler_env]
         (scheduler_start demo_database)))
        (HandleOpencodeSession
           \<lparr>request_prompt = units ''Run tests'', request_thread = demo_thread,
            request_projectDirectory = ''/proj'', request_channelId = ''c1''\<rparr>) = 2
   \<and> getScheduleById
      (scheduled_messages (store (scheduler_run
         [TimerFires 30000, TimerFires 40000,
          IterationEnds 0 demo_scheduler_env, IterationEnds 0 demo_scheduler_env,
          IterationEnds 1 demo_scheduler_env, IterationEnds 1 demo_scheduler_env]
         (scheduler_start demo_database)))) 1
     = Some (demo_schedule1\<lparr>sm_status := SCompleted\<rparr>)"
  by (simp add: scheduler_start_def getPendingSchedules_def getScheduleById_def
      executeSchedule_def Let_def sendScheduleNotification_def updateScheduleStatus_def
      getBotSettings_hub_channel_id_def getChannelDirectory_def isThread_def PublicThread_def
      demo_defs)

text \<open>
  C1 (amended). Let the ids of the table be distinct (\<^verbatim>\<open>id\<close> is its key), let row \<open>r\<close>
  be pending with \<open>scheduled_at r \<le> now\<close>, and let a tick start at \<open>now\<close>.

  Whatever happens then, further ticks and ticks that overlap included: the row with
  that id differs from \<open>r\<close> in its status and error message at most, and once the tick
  has finished it is \<open>completed\<close> or \<open>failed\<close>.

  Let moreover no tick in flight have a row with that id in its list when the tick
  starts, and let iterations then end, of this tick and of the others in flight, in any
  order and whatever the platform answers, while no further tick starts. Then:

  \<^item> as long as the row is pending, it is \<open>r\<close> and the tick has it in its list;
  \<^item> once it is not pending, it is \<open>completed\<close> or \<open>failed\<close> and exactly one iteration
    has run for it; and whatever happens afterwards, further ticks and ticks that
    overlap included, no iteration runs for it again and it stays as it is.
\<close>

theorem due_row_settled_once:
  assumes "distinct (map sm_id (scheduled_messages (store st)))"
    and "r \<in> set (scheduled_messages (store st))" and "sm_status r = SPending"
    and "scheduled_at r \<le> now"
    and "st3 = scheduler_run (TimerFires now # actions) st"
    and "st2 = scheduler_run (TimerFires now # map (case_prod IterationEnds) mid) st"
  shows "(\<exists>x. getScheduleById (scheduled_messages (store st3)) (sm_id r) = Some x
            \<and> x\<lparr>sm_status := sm_status r, sm_error_message := sm_error_message r\<rparr> = r
            \<and> (in_flight st3 ! length (in_flight st) = []
                 \<longrightarrow> sm_status x = SCompleted \<or> sm_status x = SFailed))
       \<and> (list_all (\<lambda>L. sm_id r \<notin> set (map sm_id L)) (in_flight st) \<longrightarrow>
           (\<exists>x. getScheduleById (scheduled_messages (store st2)) (sm_id r) = Some x
              \<and> (if sm_status x = SPending
                  then x = r \<and> r \<in> set (in_flight st2 ! length (in_flight st))
                  else (sm_status x = SCompleted \<or> sm_status x = SFailed)
                       \<and> count_list (processed_ids (trace st2)) (sm_id r)
                           = count_list (processed_ids (trace st)) (sm_id r) + 1
                       \<and> (\<forall>later.
                             count_list (processed_ids (trace (scheduler_run later st2))) (sm_id r)
                               = count_list (processed_ids (trace st)) (sm_id r) + 1
                             \<and> getScheduleById (scheduled_messages (store (scheduler_run later st2)))
                                   (sm_id r) = Some x))))"
proof (intro conjI impI)
  let ?k = "length (in_flight st)"
  let ?L = "getPendingSchedules now (scheduled_messages (store st))"
  define st0 where "st0 = scheduler_step (TimerFires now) st"
  have st0: "store st0 = store st" "trace st0 = trace st" "in_flight st0 = in_flight st @ [?L]"
    by (simp_all add: st0_def)
  have due: "r \<in> set ?L" using assms(2,3,4) by (simp add: getPendingSchedules_def)
  have "pursued r ?k st0"
    unfolding pursued_def using assms(1,2,3) due by (auto simp: st0 intro!: bexI [of _ r])
  then have "pursued r ?k st3"
    unfolding assms(5) using pursued_run [of r ?k st0 actions]
    by (simp add: st0_def del: scheduler_step.simps)
  then obtain x where
    dist: "distinct (map sm_id (scheduled_messages (store st3)))"
    and x_in: "x \<in> set (scheduled_messages (store st3))"
    and cols: "x\<lparr>sm_status := sm_status r, sm_error_message := sm_error_message r\<rparr> = r"
    and st_x: "sm_status x = SCompleted \<or> sm_status x = SFailed
                \<or> (sm_status x = SPending \<and> sm_id r \<in> sm_id ` set (in_flight st3 ! ?k))"
    by (auto simp: pursued_def)
  have "sm_id (x\<lparr>sm_status := sm_status r, sm_error_message := sm_error_message r\<rparr>) = sm_id r"
    by (simp only: cols)
  then have id_x: "sm_id x = sm_id r" by simp
  have "getScheduleById (scheduled_messages (store st3)) (sm_id r) = Some x"
    using getScheduleById_member [OF dist x_in] by (simp add: id_x)
  moreover have "in_flight st3 ! ?k = [] \<longrightarrow> sm_status x = SCompleted \<or> sm_status x = SFailed"
    using st_x by auto
  ultimately show "\<exists>x. getScheduleById (scheduled_messages (store st3)) (sm_id r) = Some x
            \<and> x\<lparr>sm_status := sm_status r, sm_error_message := sm_error_message r\<rparr> = r
            \<and> (in_flight st3 ! length (in_flight st) = []
                 \<longrightarrow> sm_status x = SCompleted \<or> sm_status x = SFailed)"
    using cols by blast
next
  assume quiet: "list_all (\<lambda>L. sm_id r \<notin> set (map sm_id L)) (in_flight st)"
  let ?k = "length (in_flight st)"
  let ?L = "getPendingSchedules now (scheduled_messages (store st))"
  define st0 where "st0 = scheduler_step (TimerFires now) st"
  have st0: "store st0 = store st" "trace st0 = trace st" "in_flight st0 = in_flight st @ [?L]"
    by (simp_all add: st0_def)
  have run: "st2 = scheduler_run (map (case_prod IterationEnds) mid) st0"
    by (simp add: assms(6) st0_def)
  have due: "r \<in> set ?L" using assms(2,3,4) by (simp add: getPendingSchedules_def)
  have dist_L: "distinct (map sm_id ?L)"
    using assms(1) by (simp add: getPendingSchedules_def distinct_map_filter)
  have others: "sm_id r \<notin> sm_id ` set (in_flight st0 ! j)" if "j < length (in_flight st0)" "j \<noteq> ?k" for j
  proof -
    have "j < ?k" using that by (simp add: st0)
    then have "in_flight st0 ! j \<in> set (in_flight st)" by (simp add: st0 nth_append)
    then show ?thesis using quiet by (auto simp: list_all_iff)
  qed
  have "awaited r ?k st0"
    unfolding awaited_def using assms(1,2) due dist_L others by (simp add: st0)
  from awaited_run [OF this assms(3), of mid]
  consider (waits) "awaited r ?k st2"
    | (ended) x where "settled x st2" "sm_id x = sm_id r" "sm_status x = SCompleted \<or> sm_status x = SFailed"
      "count_list (processed_ids (trace st2)) (sm_id r)
         = count_list (processed_ids (trace st)) (sm_id r) + 1"
    unfolding run [symmetric] st0 by blast
  then show "\<exists>x. getScheduleById (scheduled_messages (store st2)) (sm_id r) = Some x
              \<and> (if sm_status x = SPending
                  then x = r \<and> r \<in> set (in_flight st2 ! length (in_flight st))
                  else (sm_status x = SCompleted \<or> sm_status x = SFailed)
                       \<and> count_list (processed_ids (trace st2)) (sm_id r)
                           = count_list (processed_ids (trace st)) (sm_id r) + 1
                       \<and> (\<forall>later.
                             count_list (processed_ids (trace (scheduler_run later st2))) (sm_id r)
                               = count_list (processed_ids (trace st)) (sm_id r) + 1
                             \<and> getScheduleById (scheduled_messages (store (scheduler_run later st2)))
                                   (sm_id r) = Some x))"
  proof cases
    case waits
    have "getScheduleById (scheduled_messages (store st2)) (sm_id r) = Some r"
      using waits by (intro getScheduleById_member) (simp_all add: awaited_def)
    moreover have "r \<in> set (in_flight st2 ! ?k)" using waits by (simp add: awaited_def)
    ultimately show ?thesis using assms(3) by auto
  next
    case ended
    have row: "getScheduleById (scheduled_messages (store st2)) (sm_id r) = Some x"
      using getScheduleById_member [of "scheduled_messages (store st2)" x] ended(1,2)
      by (simp add: settled_def)
    have not_pending: "sm_status x \<noteq> SPending" using ended(3) by auto
    have later: "count_list (processed_ids (trace (scheduler_run later st2))) (sm_id r)
                   = count_list (processed_ids (trace st)) (sm_id r) + 1
                 \<and> getScheduleById (scheduled_messages (store (scheduler_run later st2))) (sm_id r)
                     = Some x" for later
    proof -
      from settled_run [OF ended(1), of later] obtain added where
        s: "settled x (scheduler_run later st2)"
          "trace (scheduler_run later st2) = trace st2 @ added"
          "sm_id r \<notin> set (processed_ids added)"
        by (auto simp: ended(2))
      have "getScheduleById (scheduled_messages (store (scheduler_run later st2))) (sm_id r) = Some x"
        using getScheduleById_member [of "scheduled_messages (store (scheduler_run later st2))" x]
          s(1) ended(2)
        by (simp add: settled_def)
      then show ?thesis
        using s(3) ended(4)
        by (simp add: s(2) processed_ids_append count_list_append count_list_absent)
    qed
    show ?thesis
      using row ended(3,4) not_pending later by auto
  qed
qed

theorem due_row_settled_once_witness:
  "scheduler_run [TimerFires 30000]
      (scheduler_start
         (demo_database\<lparr>scheduled_messages := [demo_schedule1\<lparr>scheduled_at := 35000\<rparr>, demo_schedule2]\<rparr>))
     = \<lparr>store = demo_database\<lparr>scheduled_messages :=
                   [demo_schedule1\<lparr>scheduled_at := 35000\<rparr>, demo_schedule2]\<rparr>,
        in_flight = [[demo_schedule2]], trace = []\<rparr>
   \<and> sm_status (demo_schedule1\<lparr>scheduled_at := 35000\<rparr>) = SPending
   \<and> scheduled_at (demo_schedule1\<lparr>scheduled_at := 35000\<rparr>) \<le> 40000
   \<and> list_all (\<lambda>L. sm_id (demo_schedule1\<lparr>scheduled_at := 35000\<rparr>) \<notin> set (map sm_id L))
        [[demo_schedule2]]
   \<and> getScheduleById
        (scheduled_messages (store (scheduler_run
           [TimerFires 40000, IterationEnds 0 demo_scheduler_env, IterationEnds 1 demo_scheduler_env,
            IterationEnds 1 demo_scheduler_env]
           \<lparr>store = demo_database\<lparr>scheduled_messages :=
                      [demo_schedule1\<lparr>scheduled_at := 35000\<rparr>, demo_schedule2]\<rparr>,
            in_flight = [[demo_schedule2]], trace = []\<rparr>))) 1
       = Some (demo_schedule1\<lparr>scheduled_at := 35000, sm_status := SCompleted\<rparr>)
   \<and> count_list (processed_ids (trace (scheduler_run
           [TimerFires 40000, IterationEnds 0 demo_scheduler_env, IterationEnds 1 demo_scheduler_env,
            IterationEnds 1 demo_scheduler_env]
           \<lparr>store = demo_database\<lparr>scheduled_messages :=
                      [demo_schedule1\<lparr>scheduled_at := 35000\<rparr>, demo_schedule2]\<rparr>,
            in_flight = [[demo_schedule2]], trace = []\<rparr>))) 1 = 1
   \<and> count_list (processed_ids (trace (scheduler_run
           [TimerFires 50000, TimerFires 60000, IterationEnds 2 demo_scheduler_env,
            IterationEnds 3 demo_scheduler_env]
           (scheduler_run
              [TimerFires 40000, IterationEnds 0 demo_scheduler_env, IterationEnds 1 demo_scheduler_env,
               IterationEnds 1 demo_scheduler_env]
              \<lparr>store = demo_database\<lparr>scheduled_messages :=
                         [demo_schedule1\<lparr>scheduled_at := 35000\<rparr>, demo_schedule2]\<rparr>,
               in_flight = [[demo_schedule2]], trace = []\<rparr>)))) 1 = 1
   \<and> getScheduleById
        (scheduled_messages (store (scheduler_run
           [TimerFires 50000, TimerFires 60000, IterationEnds 2 demo_scheduler_env,
            IterationEnds 3 demo_scheduler_env]
           (scheduler_run
              [TimerFires 40000, IterationEnds 0 demo_scheduler_env, IterationEnds 1 demo_scheduler_env,
               IterationEnds 1 demo_scheduler_env]
              \<lparr>store = demo_database\<lparr>scheduled_messages :=
                         [demo_schedule1\<lparr>scheduled_at := 35000\<rparr>, demo_schedule2]\<rparr>,
               in_flight = [[demo_schedule2]], trace = []\<rparr>)))) 1
       = Some (demo_schedule1\<lparr>scheduled_at := 35000, sm_status := SCompleted\<rparr>)
   \<and> in_flight (scheduler_run
           [TimerFires 40000, TimerFires 45000, IterationEnds 1 demo_scheduler_env,
            IterationEnds 2 demo_scheduler_env, IterationEnds 1 demo_scheduler_env]
           \<lparr>store = demo_database\<lparr>scheduled_messages :=
                      [demo_schedule1\<lparr>scheduled_at := 35000\<rparr>, demo_schedule2]\<rparr>,
            in_flight = [[demo_schedule2]], trace = []\<rparr>) ! 1 = []
   \<and> count_list (processed_ids (trace (scheduler_run
           [TimerFires 40000, TimerFires 45000, IterationEnds 1 demo_scheduler_env,
            IterationEnds 2 demo_scheduler_env, IterationEnds 1 demo_scheduler_env]
           \<lparr>store = demo_database\<lparr>scheduled_messages :=
                      [demo_schedule1\<lparr>scheduled_at := 35000\<rparr>, demo_schedule2]\<rparr>,
            in_flight = [[demo_schedule2]], trace = []\<rparr>))) 1 = 2
   \<and> getScheduleById
        (scheduled_messages (store (scheduler_run
           [TimerFires 40000, TimerFires 45000, IterationEnds 1 demo_scheduler_env,
            IterationEnds 2 demo_scheduler_env, IterationEnds 1 demo_scheduler_env]
           \<lparr>store = demo_database\<lparr>scheduled_messages :=
                      [demo_schedule1\<lparr>scheduled_at := 35000\<rparr>, demo_schedule2]\<rparr>,
            in_flight = [[demo_schedule2]], trace = []\<rparr>))) 1
       = Some (demo_schedule1\<lparr>scheduled_at := 35000, sm_status := SCompleted\<rparr>)"
proof -
  let ?r = "demo_schedule1\<lparr>scheduled_at := 35000\<rparr>"
  let ?db = "demo_database\<lparr>scheduled_messages := [?r, demo_schedule2]\<rparr>"
  let ?st = "\<lparr>store = ?db, in_flight = [[demo_schedule2]], trace = []\<rparr>"
  let ?mid = "[(0, demo_scheduler_env), (1, demo_scheduler_env), (1, demo_scheduler_env)]"
  let ?st2 = "scheduler_run
           [TimerFires 40000, IterationEnds 0 demo_scheduler_env, IterationEnds 1 demo_scheduler_env,
            IterationEnds 1 demo_scheduler_env] ?st"
  let ?later = "[TimerFires 50000, TimerFires 60000, IterationEnds 2 demo_scheduler_env,
            IterationEnds 3 demo_scheduler_env]"
  let ?actions = "[TimerFires 45000, IterationEnds 1 demo_scheduler_env,
            IterationEnds 2 demo_scheduler_env, IterationEnds 1 demo_scheduler_env]"
  let ?st3 = "scheduler_run
           [TimerFires 40000, TimerFires 45000, IterationEnds 1 demo_scheduler_env,
            IterationEnds 2 demo_scheduler_env, IterationEnds 1 demo_scheduler_env] ?st"
  have early: "scheduler_run [TimerFires 30000] (scheduler_start ?db) = ?st"
    by (simp add: scheduler_start_def getPendingSchedules_def demo_defs)
  have h1: "distinct (map sm_id (scheduled_messages (store ?st)))" by (simp add: demo_defs)
  have h2: "?r \<in> set (scheduled_messages (store ?st))" by simp
  have h3: "sm_status ?r = SPending" by (simp add: demo_defs)
  have h4: "scheduled_at ?r \<le> 40000" by simp
  have h5: "list_all (\<lambda>L. sm_id ?r \<notin> set (map sm_id L)) (in_flight ?st)" by (simp add: demo_defs)
  have h6: "?st2 = scheduler_run (TimerFires 40000 # map (case_prod IterationEnds) ?mid) ?st"
    by (simp del: scheduler_run.simps scheduler_step.simps)
  have h7: "?st3 = scheduler_run (TimerFires 40000 # ?actions) ?st"
    by (simp del: scheduler_run.simps scheduler_step.simps)
  have id1: "sm_id ?r = 1" by (simp add: demo_defs)
  have row: "getScheduleById (scheduled_messages (store ?st2)) 1
             = Some (demo_schedule1\<lparr>scheduled_at := 35000, sm_status := SCompleted\<rparr>)"
    by (simp add: getPendingSchedules_def getScheduleById_def executeSchedule_def Let_def
        sendScheduleNotification_def updateScheduleStatus_def getBotSettings_hub_channel_id_def
        getChannelDirectory_def isThread_def PublicThread_def demo_defs)
  note inst = due_row_settled_once [OF h1 h2 h3 h4 h7 h6]
  have tick_over: "in_flight ?st3 ! 1 = []"
    and twice: "count_list (processed_ids (trace ?st3)) 1 = 2"
    and row3: "getScheduleById (scheduled_messages (store ?st3)) 1
               = Some (demo_schedule1\<lparr>scheduled_at := 35000, sm_status := SCompleted\<rparr>)"
    by (simp_all add: getPendingSchedules_def getScheduleById_def executeSchedule_def Let_def
        sendScheduleNotification_def updateScheduleStatus_def getBotSettings_hub_channel_id_def
        getChannelDirectory_def isThread_def PublicThread_def demo_defs)
  from inst h5 obtain x where
    x: "getScheduleById (scheduled_messages (store ?st2)) (sm_id ?r) = Some x"
    and rest: "if sm_status x = SPending
           then x = ?r \<and> ?r \<in> set (in_flight ?st2 ! length (in_flight ?st))
           else (sm_status x = SCompleted \<or> sm_status x = SFailed)
                \<and> count_list (processed_ids (trace ?st2)) (sm_id ?r)
                    = count_list (processed_ids (trace ?st)) (sm_id ?r) + 1
                \<and> (\<forall>later.
                      count_list (processed_ids (trace (scheduler_run later ?st2))) (sm_id ?r)
                        = count_list (processed_ids (trace ?st)) (sm_id ?r) + 1
                      \<and> getScheduleById (scheduled_messages (store (scheduler_run later ?st2)))
                            (sm_id ?r) = Some x)"
    by blast
  have x_eq: "x = demo_schedule1\<lparr>scheduled_at := 35000, sm_status := SCompleted\<rparr>"
    using x row unfolding id1 by (simp del: scheduler_run.simps scheduler_step.simps)
  have ended: "sm_status x \<noteq> SPending" by (simp add: x_eq)
  have once: "count_list (processed_ids (trace ?st2)) 1 = 1"
    using rest ended unfolding id1 by (simp del: scheduler_run.simps scheduler_step.simps)
  have after: "count_list (processed_ids (trace (scheduler_run ?later ?st2))) 1 = 1
      \<and> getScheduleById (scheduled_messages (store (scheduler_run ?later ?st2))) 1
          = Some (demo_schedule1\<lparr>scheduled_at := 35000, sm_status := SCompleted\<rparr>)"
    using rest ended unfolding id1 x_eq by (simp del: scheduler_run.simps scheduler_step.simps)
  show ?thesis
    using early h3 h4 h5 row once after tick_over twice row3
    by (simp del: scheduler_run.simps scheduler_step.simps)
qed

text \<open>
  C6 (as stated, refuted). A hub channel is configured for the application, the one due
  row fails, and the platform rejects the fetch of the hub channel: the failure is
  recorded in the row and logged, and nothing is sent to the hub.
\<close>

theorem scheduler_hub_counterexample:
  "application_id demo_scheduler_env = Some ''app''
   \<and> getBotSettings_hub_channel_id (bot_settings demo_database) ''app'' = Some ''hub''
   \<and> scheduler_run
        [TimerFires 30000,
         IterationEnds 0
           (demo_scheduler_env\<lparr>channels_fetch :=
              (\<lambda>c. if c = ''hub'' then Inl (units ''Unknown Channel'') else Inr None)\<rparr>)]
        (scheduler_start (demo_database\<lparr>scheduled_messages := [demo_schedule2]\<rparr>))
      = \<lparr>store = demo_database\<lparr>scheduled_messages :=
           [demo_schedule2\<lparr>sm_status := SFailed,
              sm_error_message := Some (units ''Unhandled exception: Channel c9 not found'')\<rparr>]\<rparr>,
         in_flight = [[]],
         trace = [LogProcessing 2, LogFailed 2 (units ''Unhandled exception: Channel c9 not found'')]\<rparr>"
  by (simp add: scheduler_start_def getPendingSchedules_def executeSchedule_def Let_def
      sendScheduleNotification_def updateScheduleStatus_def getBotSettings_hub_channel_id_def
      unhandled_exception_def units_def demo_defs)

text \<open>
  C6 (amended). Let a tick be working on row \<open>r\<close>, with the rows \<open>rest\<close> after it in
  its list, and let the execution of \<open>r\<close> throw. When the iteration ends, \<open>message\<close>
  being the message of the \<^verbatim>\<open>Error\<close> that \<^verbatim>\<open>errore.tryAsync\<close> returned:

  \<^item> the row of the table with the id of \<open>r\<close>, if there is one, has status \<open>failed\<close>
    and that message, and the row of every other id is as it was;
  \<^item> the calls made are the log line of the start, the calls of the execution, the log
    line of the failure with the message, and what \<^verbatim>\<open>sendScheduleNotification\<close> sends;
  \<^item> \<^verbatim>\<open>sendScheduleNotification\<close> sends the one failure notice to the hub channel when
    the application id is known, a hub channel is configured for it and the platform
    returns that channel as one that can be sent to, and sends nothing otherwise;
  \<^item> the tick is left with the rows \<open>rest\<close>, and its next iterations start every one of
    them, in order, whatever the platform answers, and leave it with none.
\<close>

theorem failed_row_recorded_and_isolated:
  assumes "k < length (in_flight st)" and "in_flight st ! k = r # rest"
    and "fst (executeSchedule env (store st) r) = Inl thrown"
    and "message = units unhandled_exception @ thrown"
    and "st1 = scheduler_step (IterationEnds k env) st"
    and "length envs = length rest"
  shows "getScheduleById (scheduled_messages (store st1)) i
           = (if i = sm_id r
              then map_option (\<lambda>x. x\<lparr>sm_status := SFailed, sm_error_message := Some message\<rparr>)
                     (getScheduleById (scheduled_messages (store st)) i)
              else getScheduleById (scheduled_messages (store st)) i)
       \<and> trace st1
           = trace st @ LogProcessing (sm_id r) # snd (executeSchedule env (store st) r)
               @ LogFailed (sm_id r) message
               # sendScheduleNotification env (store st) r SFailed (Some message)
       \<and> (\<forall>app hub hubChannel.
             truthy (application_id env) = Some app
             \<and> truthy (getBotSettings_hub_channel_id (bot_settings (store st)) app) = Some hub
             \<and> channels_fetch env hub = Inr (Some hubChannel) \<and> sendable hubChannel
           \<longrightarrow> sendScheduleNotification env (store st) r SFailed (Some message)
                = [HubChannelSend (channel_id hubChannel)
                     (scheduleNotificationContent r SFailed (Some message))])
       \<and> (\<not> (\<exists>app hub hubChannel.
                truthy (application_id env) = Some app
                \<and> truthy (getBotSettings_hub_channel_id (bot_settings (store st)) app) = Some hub
                \<and> channels_fetch env hub = Inr (Some hubChannel) \<and> sendable hubChannel)
           \<longrightarrow> sendScheduleNotification env (store st) r SFailed (Some message) = [])
       \<and> in_flight st1 = (in_flight st)[k := rest]
       \<and> processed_ids (trace (scheduler_run (map (IterationEnds k) envs) st1))
           = processed_ids (trace st1) @ map sm_id rest
       \<and> in_flight (scheduler_run (map (IterationEnds k) envs) st1) = (in_flight st)[k := []]"
proof -
  let ?db = "store st"
  obtain calls where ex: "executeSchedule env ?db r = (Inl thrown, calls)"
    using assms(3) by (cases "executeSchedule env ?db r") auto
  define db1 where "db1 = ?db\<lparr>scheduled_messages :=
      updateScheduleStatus (sm_id r) SFailed (Some message) (scheduled_messages ?db)\<rparr>"
  have same_notice: "sendScheduleNotification env db1 r SFailed (Some message)
               = sendScheduleNotification env ?db r SFailed (Some message)"
    by (rule sendScheduleNotification_tables) (simp add: db1_def)
  have st1: "st1 = \<lparr>store = db1, in_flight = (in_flight st)[k := rest],
                    trace = trace st @ LogProcessing (sm_id r) # calls
                      @ LogFailed (sm_id r) message
                      # sendScheduleNotification env ?db r SFailed (Some message)\<rparr>"
    using assms(1,2) ex same_notice by (simp add: assms(4,5) Let_def db1_def)
  have rows: "getScheduleById (scheduled_messages (store st1)) i
           = (if i = sm_id r
              then map_option (\<lambda>x. x\<lparr>sm_status := SFailed, sm_error_message := Some message\<rparr>)
                     (getScheduleById (scheduled_messages ?db) i)
              else getScheduleById (scheduled_messages ?db) i)"
    by (simp add: st1 db1_def getScheduleById_update)
  have calls: "trace st1
           = trace st @ LogProcessing (sm_id r) # snd (executeSchedule env ?db r)
               @ LogFailed (sm_id r) message
               # sendScheduleNotification env ?db r SFailed (Some message)"
    by (simp add: st1 ex)
  have k1: "k < length (in_flight st1)" and rest1: "in_flight st1 ! k = rest"
    using assms(1) by (simp_all add: st1)
  have goes_on: "processed_ids (trace (scheduler_run (map (IterationEnds k) envs) st1))
           = processed_ids (trace st1) @ map sm_id rest
       \<and> in_flight (scheduler_run (map (IterationEnds k) envs) st1) = (in_flight st1)[k := []]"
    by (rule iterations_processed [OF k1 rest1 assms(6)])
  have left: "in_flight st1 = (in_flight st)[k := rest]" by (simp add: st1)
  show ?thesis
    using rows calls goes_on left
    by (simp add: sendScheduleNotification_hub sendScheduleNotification_silent)
qed

theorem failed_row_recorded_and_isolated_witness:
  "fst (executeSchedule demo_scheduler_env demo_database demo_schedule2)
     = Inl (units ''Channel c9 not found'')
   \<and> truthy (application_id demo_scheduler_env) = Some ''app''
   \<and> truthy (getBotSettings_hub_channel_id (bot_settings demo_database) ''app'') = Some ''hub''
   \<and> channels_fetch demo_scheduler_env ''hub'' = Inr (Some demo_hub_channel)
   \<and> sendable demo_hub_channel
   \<and> getScheduleById
        (scheduled_messages (store (scheduler_step (IterationEnds 0 demo_scheduler_env)
           \<lparr>store = demo_database, in_flight = [[demo_schedule2, demo_schedule1]], trace = []\<rparr>))) 2
       = Some (demo_schedule2\<lparr>sm_status := SFailed,
                 sm_error_message := Some (units ''Unhandled exception: Channel c9 not found'')\<rparr>)
   \<and> getScheduleById
        (scheduled_messages (store (scheduler_step (IterationEnds 0 demo_scheduler_env)
           \<lparr>store = demo_database, in_flight = [[demo_schedule2, demo_schedule1]], trace = []\<rparr>))) 1
       = Some demo_schedule1
   \<and> trace (scheduler_step (IterationEnds 0 demo_scheduler_env)
           \<lparr>store = demo_database, in_flight = [[demo_schedule2, demo_schedule1]], trace = []\<rparr>)
       = [LogProcessing 2,
          LogFailed 2 (units ''Unhandled exception: Channel c9 not found''),
          HubChannelSend ''hub''
            (cross_mark_units @ units '' Schedule **#2** failed'' @ newline
             @ round_pushpin @ units '' <#c9>'' @ newline
             @ speech_balloon @ units '' Deploy'' @ newline
             @ warning_sign @ units '' Unhandled exception: Channel c9 not found'')]
   \<and> in_flight (scheduler_step (IterationEnds 0 demo_scheduler_env)
           \<lparr>store = demo_database, in_flight = [[demo_schedule2, demo_schedule1]], trace = []\<rparr>)
       = [[demo_schedule1]]
   \<and> processed_ids (trace (scheduler_run [IterationEnds 0 demo_scheduler_env]
        (scheduler_step (IterationEnds 0 demo_scheduler_env)
           \<lparr>store = demo_database, in_flight = [[demo_schedule2, demo_schedule1]], trace = []\<rparr>)))
       = [2, 1]
   \<and> in_flight (scheduler_run [IterationEnds 0 demo_scheduler_env]
        (scheduler_step (IterationEnds 0 demo_scheduler_env)
           \<lparr>store = demo_database, in_flight = [[demo_schedule2, demo_schedule1]], trace = []\<rparr>))
       = [[]]"
proof -
  let ?st = "\<lparr>store = demo_database, in_flight = [[demo_schedule2, demo_schedule1]], trace = []\<rparr>"
  have h1: "0 < length (in_flight ?st)" by simp
  have h2: "in_flight ?st ! 0 = demo_schedule2 # [demo_schedule1]" by simp
  have h3: "fst (executeSchedule demo_scheduler_env (store ?st) demo_schedule2)
            = Inl (units ''Channel c9 not found'')"
    using demo_exec2 by simp
  have h4: "units ''Unhandled exception: Channel c9 not found''
            = units unhandled_exception @ units ''Channel c9 not found''"
    by (simp add: units_def unhandled_exception_def)
  have h6: "length [demo_scheduler_env] = length [demo_schedule1]" by simp
  have hub: "truthy (application_id demo_scheduler_env) = Some ''app''
             \<and> truthy (getBotSettings_hub_channel_id (bot_settings (store ?st)) ''app'') = Some ''hub''
             \<and> channels_fetch demo_scheduler_env ''hub'' = Inr (Some demo_hub_channel)
             \<and> sendable demo_hub_channel"
    by (simp add: getBotSettings_hub_channel_id_def demo_defs)
  have calls: "snd (executeSchedule demo_scheduler_env demo_database demo_schedule2) = []"
    by (simp add: executeSchedule_def Let_def demo_defs)
  have ids: "sm_id demo_schedule1 = 1" "sm_id demo_schedule2 = 2" "channel_id demo_hub_channel = ''hub''"
    by (simp_all add: demo_defs)
  have rows: "getScheduleById (scheduled_messages demo_database) 2 = Some demo_schedule2"
    "getScheduleById (scheduled_messages demo_database) 1 = Some demo_schedule1"
    by (simp_all add: getScheduleById_def demo_defs)
  note inst = failed_row_recorded_and_isolated [OF h1 h2 h3 h4 refl h6]
  have notice: "sendScheduleNotification demo_scheduler_env (store ?st) demo_schedule2 SFailed
                  (Some (units ''Unhandled exception: Channel c9 not found''))
                = [HubChannelSend (channel_id demo_hub_channel)
                     (scheduleNotificationContent demo_schedule2 SFailed
                        (Some (units ''Unhandled exception: Channel c9 not found'')))]"
    using inst [of 0] hub by blast
  have row2: "getScheduleById
        (scheduled_messages (store (scheduler_step (IterationEnds 0 demo_scheduler_env) ?st))) 2
       = Some (demo_schedule2\<lparr>sm_status := SFailed,
                 sm_error_message := Some (units ''Unhandled exception: Channel c9 not found'')\<rparr>)"
    using inst [of 2] rows ids by (simp del: scheduler_step.simps)
  have row1: "getScheduleById
        (scheduled_messages (store (scheduler_step (IterationEnds 0 demo_scheduler_env) ?st))) 1
       = Some demo_schedule1"
    using inst [of 1] rows ids by (simp del: scheduler_step.simps)
  have content: "scheduleNotificationContent demo_schedule2 SFailed
               (Some (units ''Unhandled exception: Channel c9 not found''))
             = cross_mark_units @ units '' Schedule **#2** failed'' @ newline
               @ round_pushpin @ units '' <#c9>'' @ newline
               @ speech_balloon @ units '' Deploy'' @ newline
               @ warning_sign @ units '' Unhandled exception: Channel c9 not found''"
    by (simp add: scheduleNotificationContent_def preview_def decimal_def decimal_nat.simps
        demo_defs units_def)
  have tr: "trace (scheduler_step (IterationEnds 0 demo_scheduler_env) ?st)
       = [LogProcessing 2,
          LogFailed 2 (units ''Unhandled exception: Channel c9 not found''),
          HubChannelSend ''hub''
            (cross_mark_units @ units '' Schedule **#2** failed'' @ newline
             @ round_pushpin @ units '' <#c9>'' @ newline
             @ speech_balloon @ units '' Deploy'' @ newline
             @ warning_sign @ units '' Unhandled exception: Channel c9 not found'')]"
    using inst [of 0] notice calls ids content by (simp del: scheduler_step.simps)
  have rest: "in_flight (scheduler_step (IterationEnds 0 demo_scheduler_env) ?st) = [[demo_schedule1]]"
    "in_flight (scheduler_run [IterationEnds 0 demo_scheduler_env]
        (scheduler_step (IterationEnds 0 demo_scheduler_env) ?st)) = [[]]"
    using inst [of 0] by (simp_all del: scheduler_step.simps scheduler_run.simps)
  have started: "processed_ids (trace (scheduler_run [IterationEnds 0 demo_scheduler_env]
        (scheduler_step (IterationEnds 0 demo_scheduler_env) ?st))) = [2, 1]"
    using inst [of 0] tr ids by (simp del: scheduler_step.simps scheduler_run.simps)
  show ?thesis
    using demo_exec2 hub row2 row1 tr rest started by (simp del: scheduler_step.simps scheduler_run.simps)
qed

text \<open>
  C7. When the schedule with the given id is not pending, the cancel subcommand replies
  with the ephemeral "is already ..." failure and returns the table as it was, whatever
  the store's \<^verbatim>\<open>cancelSchedule\<close> would do: it is not called.
\<close>

theorem cancel_rejected_unless_pending:
  assumes "getScheduleById tbl scheduleId = Some schedule" and "sm_status schedule \<noteq> SPending"
  shows "handleScheduleCommand_cancel cancel scheduleId user tbl
           = (tbl, \<lparr>reply_content = cross_mark @ '' Schedule #'' @ decimal scheduleId
                                      @ '' is already '' @ status_text (sm_status schedule),
                    reply_ephemeral = True\<rparr>)
       \<and> getScheduleById (fst (handleScheduleCommand_cancel cancel scheduleId user tbl)) scheduleId
           = Some schedule"
  using assms by (simp add: handleScheduleCommand_cancel_def)

theorem cancel_rejected_unless_pending_witness:
  "getScheduleById [demo_schedule1\<lparr>sm_status := SCompleted\<rparr>, demo_schedule2] 1
     = Some (demo_schedule1\<lparr>sm_status := SCompleted\<rparr>)
   \<and> sm_status (demo_schedule1\<lparr>sm_status := SCompleted\<rparr>) \<noteq> SPending
   \<and> handleScheduleCommand_cancel cancelSchedule 1 ''u1''
        [demo_schedule1\<lparr>sm_status := SCompleted\<rparr>, demo_schedule2]
      = ([demo_schedule1\<lparr>sm_status := SCompleted\<rparr>, demo_schedule2],
         \<lparr>reply_content = cross_mark @ '' Schedule #1 is already completed'', reply_ephemeral = True\<rparr>)"
proof -
  have h1: "getScheduleById [demo_schedule1\<lparr>sm_status := SCompleted\<rparr>, demo_schedule2] 1
              = Some (demo_schedule1\<lparr>sm_status := SCompleted\<rparr>)"
    by (simp add: getScheduleById_def demo_defs)
  have h2: "sm_status (demo_schedule1\<lparr>sm_status := SCompleted\<rparr>) \<noteq> SPending" by simp
  have d: "decimal 1 = ''1''" by (simp add: decimal_def decimal_nat.simps)
  show ?thesis
    using cancel_rejected_unless_pending [OF h1 h2, of cancelSchedule "''u1''"] h1 h2 d by simp
qed


section \<open>Credential vault: base64 and serialization\<close>

lemma byte_div_16: "y < 256 \<Longrightarrow> y div 16 < (16::nat)"
  by (simp add: less_mult_imp_div_less)
lemma byte_div_64: "z < 256 \<Longrightarrow> z div 64 < (4::nat)"
  by (simp add: less_mult_imp_div_less)
lemma byte_div_4: "x < 256 \<Longrightarrow> x div 4 < (64::nat)"
  by (simp add: less_mult_imp_div_less)
lemma sextet_arith1: "x div 4 * 4 + x mod 4 * 16 div 16 = (x::nat)"
  by simp
lemma sextet_arith2: "y < 256 \<Longrightarrow> x div 4 * 4 + (x mod 4 * 16 + y div 16) div 16 = (x::nat)"
  using byte_div_16 [of y] by simp
lemma sextet_arith3: "y < 256 \<Longrightarrow> (x mod 4 * 16 + y div 16) mod 16 * 16 + y mod 16 * 4 div 4 = (y::nat)"
  using byte_div_16 [of y] by simp
lemma sextet_arith4: "y < 256 \<Longrightarrow> z < 256 \<Longrightarrow>
   (x mod 4 * 16 + y div 16) mod 16 * 16 + (y mod 16 * 4 + z div 64) div 4 = (y::nat)"
  using byte_div_16 [of y] byte_div_64 [of z] by simp
lemma sextet_arith5: "z < 256 \<Longrightarrow> (y mod 16 * 4 + z div 64) mod 4 * 64 + z mod 64 = (z::nat)"
  using byte_div_64 [of z] by simp
lemma sextet_bound2: "y < 256 \<Longrightarrow> x mod 4 * 16 + y div 16 < (64::nat)"
proof -
  assume "y < 256"
  then have "y div 16 < 16" by (rule byte_div_16)
  moreover have "x mod 4 < 4" by simp
  ultimately show ?thesis by linarith
qed
lemma sextet_bound3: "z < 256 \<Longrightarrow> y mod 16 * 4 + z div 64 < (64::nat)"
proof -
  assume "z < 256"
  then have "z div 64 < 4" by (rule byte_div_64)
  moreover have "y mod 16 < 16" by simp
  ultimately show ?thesis by linarith
qed
lemma sextet_bound1: "x mod 4 * 16 < (64::nat)"
proof -
  have "x mod 4 < 4" by simp
  then show ?thesis by linarith
qed
lemma sextet_bound4: "y mod 16 * 4 < (64::nat)"
proof -
  have "y mod 16 < 16" by simp
  then show ?thesis by linarith
qed

lemma octets_sextets: "octets (sextets bytes) = bytes"
proof (induction bytes rule: sextets.induct)
  case 1
  then show ?case by simp
next
  case (2 a)
  show ?case
    using sextet_arith1 [of "of_char a"] by simp
next
  case (3 a b)
  show ?case
    using sextet_arith2 [of "of_char b" "of_char a"] sextet_arith3 [of "of_char b" "of_char a"]
    by simp
next
  case (4 a b c rest)
  show ?case
    using 4 sextet_arith2 [of "of_char b" "of_char a"]
      sextet_arith4 [of "of_char b" "of_char c" "of_char a"]
      sextet_arith5 [of "of_char c" "of_char b"]
    by simp
qed

lemma sextets_bound: "v \<in> set (sextets bytes) \<Longrightarrow> v < 64"
proof (induction bytes arbitrary: v rule: sextets.induct)
  case 1
  then show ?case by simp
next
  case (2 a)
  then show ?case
    using byte_div_4 [of "of_char a"] sextet_bound1 [of "of_char a"] by auto
next
  case (3 a b)
  then show ?case
    using byte_div_4 [of "of_char a"] sextet_bound2 [of "of_char b" "of_char a"] sextet_bound4 [of "of_char b"] by auto
next
  case (4 a b c rest)
  have "of_char c mod 64 < (64::nat)" by simp
  then show ?case
    using 4 byte_div_4 [of "of_char a"] sextet_bound2 [of "of_char b" "of_char a"]
      sextet_bound3 [of "of_char c" "of_char b"] by auto
qed

lemma sextets_empty: "sextets bytes = [] \<longleftrightarrow> bytes = []"
  by (induction bytes rule: sextets.induct) auto

lemma b64_alphabet_length: "length b64_alphabet = 64"
  by (simp add: b64_alphabet_def)

lemma b64_alphabet_distinct: "distinct b64_alphabet"
  unfolding b64_alphabet_def by code_simp

lemma index_of_nth: "distinct xs \<Longrightarrow> i < length xs \<Longrightarrow> index_of (xs ! i) xs = Some i"
proof (induction xs arbitrary: i)
  case Nil
  then show ?case by simp
next
  case (Cons x xs)
  then show ?case by (cases i) auto
qed

lemma b64_char_in: "v < 64 \<Longrightarrow> b64_char v \<in> set b64_alphabet"
  by (simp add: b64_char_def b64_alphabet_length)

lemma b64_alphabet_excludes:
  "CHR ''='' \<notin> set b64_alphabet" "CHR '':'' \<notin> set b64_alphabet"
  "CHR ''-'' \<notin> set b64_alphabet" "CHR ''_'' \<notin> set b64_alphabet"
  by (simp_all add: b64_alphabet_def)

lemma b64_value_char:
  assumes "v < 64"
  shows "b64_value (b64_char v) = Some v"
proof -
  have "b64_char v \<noteq> CHR ''-''" "b64_char v \<noteq> CHR ''_''"
    using b64_char_in [OF assms] b64_alphabet_excludes(3,4) by auto
  moreover have "index_of (b64_char v) b64_alphabet = Some v"
    unfolding b64_char_def using assms
    by (intro index_of_nth) (simp_all add: b64_alphabet_distinct b64_alphabet_length)
  ultimately show ?thesis by (simp add: b64_value_def)
qed

lemma map_filter_b64_value:
  "(\<And>v. v \<in> set vs \<Longrightarrow> v < 64) \<Longrightarrow> List.map_filter b64_value (map b64_char vs) = vs"
  by (induction vs) (simp_all add: b64_value_char List.map_filter_simps)

lemma takeWhile_prefix:
  "(\<And>x. x \<in> set xs \<Longrightarrow> P x) \<Longrightarrow> (\<And>y. y \<in> set ys \<Longrightarrow> \<not> P y) \<Longrightarrow> takeWhile P (xs @ ys) = xs"
proof (induction xs)
  case Nil
  then show ?case by (cases ys) simp_all
next
  case (Cons a xs)
  then show ?case by simp
qed

lemma dropWhile_prefix:
  "(\<And>x. x \<in> set xs \<Longrightarrow> P x) \<Longrightarrow> (\<And>y. y \<in> set ys \<Longrightarrow> \<not> P y) \<Longrightarrow> dropWhile P (xs @ ys) = ys"
proof (induction xs)
  case Nil
  then show ?case by (cases ys) simp_all
next
  case (Cons a xs)
  then show ?case by simp
qed

lemma b64_body_chars:
  assumes "c \<in> set (map b64_char (sextets bytes))"
  shows "c \<in> set b64_alphabet" and "c \<noteq> CHR ''=''" and "c \<noteq> CHR '':''"
proof -
  from assms obtain v where "v \<in> set (sextets bytes)" and "c = b64_char v" by auto
  then show "c \<in> set b64_alphabet" using sextets_bound b64_char_in by simp
  then show "c \<noteq> CHR ''=''" and "c \<noteq> CHR '':''" using b64_alphabet_excludes(1,2) by auto
qed

lemma b64_decode_encode: "b64_decode (b64_encode bytes) = bytes"
proof -
  have "takeWhile (\<lambda>c. c \<noteq> CHR ''='')
          (map b64_char (sextets bytes) @ replicate ((3 - length bytes mod 3) mod 3) (CHR ''=''))
        = map b64_char (sextets bytes)"
    by (rule takeWhile_prefix) (simp_all add: b64_body_chars(2))
  then show ?thesis
    by (simp add: b64_decode_def b64_encode_def map_filter_b64_value sextets_bound octets_sextets)
qed

lemma b64_encode_empty: "b64_encode bytes = [] \<longleftrightarrow> bytes = []"
  by (auto simp: b64_encode_def sextets_empty)

lemma base64Regex_encode:
  assumes "bytes \<noteq> []"
  shows "base64Regex (b64_encode bytes)"
proof -
  let ?body = "map b64_char (sextets bytes)"
  let ?pad = "replicate ((3 - length bytes mod 3) mod 3) (CHR ''='')"
  have tw: "takeWhile (\<lambda>c. c \<in> set b64_alphabet) (?body @ ?pad) = ?body"
    using b64_alphabet_excludes(1) by (intro takeWhile_prefix) (simp_all add: b64_body_chars(1))
  have dw: "dropWhile (\<lambda>c. c \<in> set b64_alphabet) (?body @ ?pad) = ?pad"
    using b64_alphabet_excludes(1) by (intro dropWhile_prefix) (simp_all add: b64_body_chars(1))
  show ?thesis
    unfolding base64Regex_def b64_encode_def tw dw
    using assms by (simp add: sextets_empty list_all_iff)
qed

lemma no_colon_encode: "CHR '':'' \<notin> set (b64_encode bytes)"
  using b64_body_chars(3) [of "CHR '':''" bytes] by (auto simp: b64_encode_def)

lemma split_no_sep: "sep \<notin> set s \<Longrightarrow> split_on sep s = [s]"
  by (induction s) auto

lemma split_append: "sep \<notin> set a \<Longrightarrow> split_on sep (a @ sep # rest) = a # split_on sep rest"
  by (induction a) (auto split: list.splits)

lemma split_three:
  "sep \<notin> set a \<Longrightarrow> sep \<notin> set b \<Longrightarrow> sep \<notin> set c
   \<Longrightarrow> split_on sep (a @ sep # b @ sep # c) = [a, b, c]"
  by (simp add: split_append split_no_sep)

section \<open>Credential vault: encryption and migration\<close>

lemma encrypt_fields:
  "iv (encrypt P plaintext key ivBytes) = b64_encode ivBytes"
  "authTag (encrypt P plaintext key ivBytes) = b64_encode (snd (cipher_final P key ivBytes plaintext))"
  "encrypted (encrypt P plaintext key ivBytes) = b64_encode (fst (cipher_final P key ivBytes plaintext))"
  by (simp_all add: encrypt_def case_prod_beta)

lemma serialized_parts:
  "split_on (CHR '':'') (serializeEncrypted (encrypt P plaintext key ivBytes))
   = [b64_encode ivBytes, b64_encode (snd (cipher_final P key ivBytes plaintext)),
      b64_encode (fst (cipher_final P key ivBytes plaintext))]"
  using split_three [OF no_colon_encode no_colon_encode no_colon_encode]
  by (simp add: serializeEncrypted_def encrypt_fields)

lemma serialized_has_colon:
  "CHR '':'' \<in> set (serializeEncrypted data)" "serializeEncrypted data \<noteq> []"
  by (simp_all add: serializeEncrypted_def)

lemma decrypt_encrypt:
  assumes "gcm_inverts P key ivBytes plaintext"
  shows "decrypt P (encrypt P plaintext key ivBytes) key = Inr plaintext"
  using assms by (simp add: decrypt_def encrypt_fields b64_decode_encode gcm_inverts_def)

lemma encrypt_nonempty_fields:
  assumes "plaintext \<noteq> []" and "length ivBytes = IV_LENGTH" and "gcm_lengths P key ivBytes plaintext"
  shows "ivBytes \<noteq> []" and "snd (cipher_final P key ivBytes plaintext) \<noteq> []"
    and "fst (cipher_final P key ivBytes plaintext) \<noteq> []"
  using assms by (auto simp: gcm_lengths_def IV_LENGTH_def)

lemma deserialize_serialize:
  assumes "plaintext \<noteq> []" and "length ivBytes = IV_LENGTH" and "gcm_lengths P key ivBytes plaintext"
  shows "deserializeEncrypted (serializeEncrypted (encrypt P plaintext key ivBytes))
         = Some (encrypt P plaintext key ivBytes)"
proof -
  have "deserializeEncrypted (serializeEncrypted (encrypt P plaintext key ivBytes))
        = Some \<lparr>iv = b64_encode ivBytes,
                 authTag = b64_encode (snd (cipher_final P key ivBytes plaintext)),
                 encrypted = b64_encode (fst (cipher_final P key ivBytes plaintext))\<rparr>"
    using encrypt_nonempty_fields [OF assms]
    by (simp add: deserializeEncrypted_def serialized_parts b64_encode_empty)
  then show ?thesis by (simp add: encrypt_def case_prod_beta)
qed

lemma isEncrypted_serialized:
  assumes "plaintext \<noteq> []" and "length ivBytes = IV_LENGTH" and "gcm_lengths P key ivBytes plaintext"
  shows "isEncrypted (serializeEncrypted (encrypt P plaintext key ivBytes))"
  using encrypt_nonempty_fields [OF assms]
  by (simp add: isEncrypted_def serialized_has_colon serialized_parts b64_encode_empty
      base64Regex_encode)

lemma empty_plaintext_serialized:
  assumes "fst (cipher_final P key ivBytes []) = []"
  shows "\<not> isEncrypted (serializeEncrypted (encrypt P [] key ivBytes))"
    and "deserializeEncrypted (serializeEncrypted (encrypt P [] key ivBytes)) = None"
  using assms
  by (simp_all add: isEncrypted_def deserializeEncrypted_def serialized_has_colon serialized_parts
      b64_encode_empty)

lemma demo_gcm_behaves:
  "gcm_lengths demo_gcm key ivBytes plaintext" "gcm_inverts demo_gcm key ivBytes plaintext"
  by (simp_all add: gcm_lengths_def gcm_inverts_def demo_gcm_def)

lemma getBotToken_encrypted:
  assumes "bot_tokens app = Some stored" and "isEncrypted stored"
  shows "fst (getBotToken P key ivBytes app bot_tokens) = bot_tokens"
proof -
  have "stored \<noteq> []" using assms(2) by (auto simp: isEncrypted_def)
  then show ?thesis
    using assms by (simp add: getBotToken_def split: option.splits sum.splits)
qed




text \<open>
  C10 (as stated, refuted). For the empty plaintext the third segment of the serialized
  value is empty: \<^verbatim>\<open>isEncrypted\<close> is false (\<^verbatim>\<open>part.length > 0\<close>) and
  \<^verbatim>\<open>deserializeEncrypted\<close> returns \<^verbatim>\<open>null\<close>. A token stored by \<^verbatim>\<open>setBotToken\<close> with the
  empty string is then taken for legacy plaintext by the next \<^verbatim>\<open>getBotToken\<close>, which
  returns the stored ciphertext text as the token and encrypts it again.
\<close>

theorem empty_plaintext_not_recognised_counterexample:
  "isEncrypted (serializeEncrypted (encrypt demo_gcm [] demo_key demo_iv)) = False
   \<and> getBotToken demo_gcm demo_key demo_iv ''app'' (setBotToken demo_gcm demo_key demo_iv ''app'' [] Map.empty)
      = ((setBotToken demo_gcm demo_key demo_iv ''app'' [] Map.empty)
           (''app'' \<mapsto> serializeEncrypted
              (encrypt demo_gcm (serializeEncrypted (encrypt demo_gcm [] demo_key demo_iv))
                 demo_key demo_iv)),
         Some (serializeEncrypted (encrypt demo_gcm [] demo_key demo_iv)))"
proof -
  have "fst (cipher_final demo_gcm demo_key demo_iv []) = []" by (simp add: demo_gcm_def)
  then have no: "\<not> isEncrypted (serializeEncrypted (encrypt demo_gcm [] demo_key demo_iv))"
    by (rule empty_plaintext_serialized(1))
  then show ?thesis
    by (simp add: getBotToken_def setBotToken_def serialized_has_colon)
qed

text \<open>
  C10 (amended). For every non-empty plaintext (12-byte IV, ciphertext as long as the
  plaintext, 16-byte tag) \<^verbatim>\<open>isEncrypted(serializeEncrypted(encrypt(s, k)))\<close> is true and
  \<^verbatim>\<open>deserializeEncrypted\<close> gives back the \<^verbatim>\<open>iv\<close>/\<^verbatim>\<open>authTag\<close>/\<^verbatim>\<open>encrypted\<close> triple; a
  token that \<^verbatim>\<open>setBotToken\<close> stored is therefore left as it is by a later
  \<^verbatim>\<open>getBotToken\<close>, and \<^verbatim>\<open>getBotApiKeys\<close> never writes.
\<close>

theorem encrypted_value_recognised:
  assumes "s \<noteq> []" and "length ivBytes = IV_LENGTH" and "gcm_lengths P key ivBytes s"
  shows "isEncrypted (serializeEncrypted (encrypt P s key ivBytes))
       \<and> deserializeEncrypted (serializeEncrypted (encrypt P s key ivBytes))
           = Some (encrypt P s key ivBytes)
       \<and> fst (getBotToken P key ivLater app (setBotToken P key ivBytes app s bot_tokens))
           = setBotToken P key ivBytes app s bot_tokens
       \<and> fst (getBotApiKeys P key app api_keys) = api_keys"
proof -
  have enc: "isEncrypted (serializeEncrypted (encrypt P s key ivBytes))"
    using assms by (rule isEncrypted_serialized)
  have "fst (getBotToken P key ivLater app (setBotToken P key ivBytes app s bot_tokens))
           = setBotToken P key ivBytes app s bot_tokens"
    by (rule getBotToken_encrypted [OF _ enc]) (simp add: setBotToken_def)
  moreover have "fst (getBotApiKeys P key app api_keys) = api_keys"
    by (simp add: getBotApiKeys_def split: option.splits)
  ultimately show ?thesis
    using enc deserialize_serialize [OF assms] by simp
qed

theorem encrypted_value_recognised_witness:
  "''secret'' \<noteq> [] \<and> length demo_iv = IV_LENGTH \<and> gcm_lengths demo_gcm demo_key demo_iv ''secret''
   \<and> isEncrypted (serializeEncrypted (encrypt demo_gcm ''secret'' demo_key demo_iv))
   \<and> deserializeEncrypted (serializeEncrypted (encrypt demo_gcm ''secret'' demo_key demo_iv))
       = Some (encrypt demo_gcm ''secret'' demo_key demo_iv)
   \<and> fst (getBotToken demo_gcm demo_key demo_iv ''app''
             (setBotToken demo_gcm demo_key demo_iv ''app'' ''secret'' Map.empty))
       = setBotToken demo_gcm demo_key demo_iv ''app'' ''secret'' Map.empty"
proof -
  have h1: "''secret'' \<noteq> []" by simp
  have h2: "length demo_iv = IV_LENGTH" by (simp add: demo_iv_def IV_LENGTH_def)
  have h3: "gcm_lengths demo_gcm demo_key demo_iv ''secret''" by (rule demo_gcm_behaves(1))
  show ?thesis
    using h1 h2 h3
      encrypted_value_recognised [OF h1 h2 h3, of demo_iv "''app''" Map.empty Map.empty]
    by simp
qed

text \<open>
  C3 (as stated, refuted). \<^verbatim>\<open>getBotApiKeys\<close> returns a legacy plaintext key as it is and
  writes nothing ("Auto-migrate on next setBotApiKeys call"): after the read the store
  still holds the plaintext, which still fails \<^verbatim>\<open>isEncrypted\<close>.
\<close>

theorem legacy_api_key_not_migrated_counterexample:
  "isEncrypted ''legacy-gemini-key'' = False
   \<and> getBotApiKeys demo_gcm demo_key ''app''
        [''app'' \<mapsto> \<lparr>gemini_api_key = Some ''legacy-gemini-key'', xai_api_key = None\<rparr>]
      = ([''app'' \<mapsto> \<lparr>gemini_api_key = Some ''legacy-gemini-key'', xai_api_key = None\<rparr>],
         Some \<lparr>geminiApiKey = Some ''legacy-gemini-key'', xaiApiKey = None\<rparr>)"
  by (simp add: isEncrypted_def getBotApiKeys_def decryptValue_def)

text \<open>
  C3 (amended). For a stored bot token that is not empty and fails \<^verbatim>\<open>isEncrypted\<close>,
  \<^verbatim>\<open>getBotToken\<close> returns the token and replaces the stored value by the serialized
  encryption of it, which passes \<^verbatim>\<open>isEncrypted\<close>; the next \<^verbatim>\<open>getBotToken\<close> returns the
  same token and leaves the store as it is (12-byte IV; the library's cipher keeps the
  length, gives a 16-byte tag and is inverted by its decipher). \<^verbatim>\<open>getBotApiKeys\<close>
  returns a legacy plaintext key unchanged and never writes.
\<close>

theorem getBotToken_migrates_legacy:
  assumes "bot_tokens app = Some token" and "token \<noteq> []" and "\<not> isEncrypted token"
    and "length ivBytes = IV_LENGTH"
    and "gcm_lengths P key ivBytes token" and "gcm_inverts P key ivBytes token"
  shows "getBotToken P key ivBytes app bot_tokens
           = (bot_tokens(app \<mapsto> serializeEncrypted (encrypt P token key ivBytes)), Some token)
       \<and> isEncrypted (serializeEncrypted (encrypt P token key ivBytes))
       \<and> getBotToken P key ivLater app (fst (getBotToken P key ivBytes app bot_tokens))
           = (fst (getBotToken P key ivBytes app bot_tokens), Some token)
       \<and> fst (getBotApiKeys P key app api_keys) = api_keys
       \<and> decryptValue P key (Some token) = Some token"
proof -
  let ?stored = "serializeEncrypted (encrypt P token key ivBytes)"
  have first: "getBotToken P key ivBytes app bot_tokens = (bot_tokens(app \<mapsto> ?stored), Some token)"
    using assms(1,2,3) by (simp add: getBotToken_def)
  have enc: "isEncrypted ?stored"
    using assms(2,4,5) by (rule isEncrypted_serialized)
  have des: "deserializeEncrypted ?stored = Some (encrypt P token key ivBytes)"
    using assms(2,4,5) by (rule deserialize_serialize)
  have dec: "decrypt P (encrypt P token key ivBytes) key = Inr token"
    using assms(6) by (rule decrypt_encrypt)
  have second: "getBotToken P key ivLater app (bot_tokens(app \<mapsto> ?stored))
                = (bot_tokens(app \<mapsto> ?stored), Some token)"
    using enc des dec by (simp add: getBotToken_def serialized_has_colon)
  have keys: "fst (getBotApiKeys P key app api_keys) = api_keys"
    by (simp add: getBotApiKeys_def split: option.splits)
  have plain: "decryptValue P key (Some token) = Some token"
    using assms(2,3) by (simp add: decryptValue_def)
  show ?thesis
    using first enc second keys plain by simp
qed

theorem getBotToken_migrates_legacy_witness:
  "isEncrypted ''MTk4.legacy.token'' = False
   \<and> getBotToken demo_gcm demo_key demo_iv ''app'' [''app'' \<mapsto> ''MTk4.legacy.token'']
       = ([''app'' \<mapsto> serializeEncrypted (encrypt demo_gcm ''MTk4.legacy.token'' demo_key demo_iv)],
          Some ''MTk4.legacy.token'')
   \<and> isEncrypted (serializeEncrypted (encrypt demo_gcm ''MTk4.legacy.token'' demo_key demo_iv))
   \<and> getBotToken demo_gcm demo_key demo_iv ''app''
        [''app'' \<mapsto> serializeEncrypted (encrypt demo_gcm ''MTk4.legacy.token'' demo_key demo_iv)]
       = ([''app'' \<mapsto> serializeEncrypted (encrypt demo_gcm ''MTk4.legacy.token'' demo_key demo_iv)],
          Some ''MTk4.legacy.token'')"
proof -
  let ?tbl = "[''app'' \<mapsto> ''MTk4.legacy.token'']"
  have h1: "?tbl ''app'' = Some ''MTk4.legacy.token''" by simp
  have h2: "''MTk4.legacy.token'' \<noteq> []" by simp
  have h3: "\<not> isEncrypted ''MTk4.legacy.token''" by (simp add: isEncrypted_def)
  have h4: "length demo_iv = IV_LENGTH" by (simp add: demo_iv_def IV_LENGTH_def)
  note h5 = demo_gcm_behaves(1) [of demo_key demo_iv "''MTk4.legacy.token''"]
  note h6 = demo_gcm_behaves(2) [of demo_key demo_iv "''MTk4.legacy.token''"]
  note inst = getBotToken_migrates_legacy [where bot_tokens = ?tbl and app = "''app''"
        and ivLater = demo_iv and api_keys = Map.empty, OF h1 h2 h3 h4 h5 h6]
  from inst have a: "getBotToken demo_gcm demo_key demo_iv ''app'' ?tbl
       = ([''app'' \<mapsto> serializeEncrypted (encrypt demo_gcm ''MTk4.legacy.token'' demo_key demo_iv)],
          Some ''MTk4.legacy.token'')"
    by simp
  from inst have b: "isEncrypted (serializeEncrypted (encrypt demo_gcm ''MTk4.legacy.token'' demo_key demo_iv))"
    by blast
  from inst have "getBotToken demo_gcm demo_key demo_iv ''app''
        (fst (getBotToken demo_gcm demo_key demo_iv ''app'' ?tbl))
       = (fst (getBotToken demo_gcm demo_key demo_iv ''app'' ?tbl), Some ''MTk4.legacy.token'')"
    by blast
  then have c: "getBotToken demo_gcm demo_key demo_iv ''app''
        [''app'' \<mapsto> serializeEncrypted (encrypt demo_gcm ''MTk4.legacy.token'' demo_key demo_iv)]
       = ([''app'' \<mapsto> serializeEncrypted (encrypt demo_gcm ''MTk4.legacy.token'' demo_key demo_iv)],
          Some ''MTk4.legacy.token'')"
    unfolding a fst_conv .
  show ?thesis
    using h3 a b c by simp
qed

end
